theory Spec2Isabelle
  imports Main "HOL-Library.Sublist" "HOL-Library.List_Lexorder"
begin

text \<open>
  The download cache of the chat bot (\<open>server.js\<close>): \<open>sanitizeFilename\<close>,
  \<open>convertToMp4\<close>, \<open>convertToMp3\<close>, \<open>download_video\<close> and the handlers of the commands
  \<open>!ytdl3\<close> and \<open>!ytdl4\<close>, as functions on the state of the two cache directories.
  The downloader, \<open>ffmpeg\<close> and the network are parameters of the model.
\<close>

section \<open>JavaScript strings\<close>

text \<open>
  A JavaScript string is a sequence of UTF-16 code units; \<open>length\<close>, \<open>substring\<close>,
  \<open>startsWith\<close>, \<open>includes\<close>, \<open>endsWith\<close> and a regular expression without the
  \<open>u\<close> flag all work on code units. A code unit is modelled as a natural number and a
  string as a list of them. \<open>js\<close> turns an ASCII literal into such a list.
\<close>

type_synonym jsstring = "nat list"

definition js :: "string \<Rightarrow> jsstring" where
  "js s = map of_char s"

text \<open>\<open>\w\<close> without the \<open>i\<close> and \<open>u\<close> flags: \<open>[A-Za-z0-9_]\<close>.\<close>

definition is_word :: "nat \<Rightarrow> bool" where
  "is_word c \<longleftrightarrow> (48 \<le> c \<and> c \<le> 57) \<or> (65 \<le> c \<and> c \<le> 90) \<or> c = 95 \<or> (97 \<le> c \<and> c \<le> 122)"

text \<open>
  \<open>\s\<close>: the ECMAScript white space and line terminator code points
  (TAB, LF, VT, FF, CR, SP, NBSP, U+1680, U+2000..U+200A, U+2028, U+2029, U+202F,
  U+205F, U+3000, U+FEFF). \<open>String.prototype.trim\<close> removes the same set.
\<close>

definition is_space :: "nat \<Rightarrow> bool" where
  "is_space c \<longleftrightarrow> (9 \<le> c \<and> c \<le> 13) \<or> c = 32 \<or> c = 160 \<or> c = 5760 \<or> (8192 \<le> c \<and> c \<le> 8202)
     \<or> c = 8232 \<or> c = 8233 \<or> c = 8239 \<or> c = 8287 \<or> c = 12288 \<or> c = 65279"

definition startsWith :: "jsstring \<Rightarrow> jsstring \<Rightarrow> bool" where
  "startsWith s p \<longleftrightarrow> take (length p) s = p"

definition endsWith :: "jsstring \<Rightarrow> jsstring \<Rightarrow> bool" where
  "endsWith s p \<longleftrightarrow> length p \<le> length s \<and> drop (length s - length p) s = p"

text \<open>\<open>s.includes(p)\<close>: \<open>p\<close> occurs at some position of \<open>s\<close>, tried from left to right.\<close>

fun includes_js :: "jsstring \<Rightarrow> jsstring \<Rightarrow> bool" where
  "includes_js [] p = (p = [])"
| "includes_js (c # cs) p = (startsWith (c # cs) p \<or> includes_js cs p)"

definition trim :: "jsstring \<Rightarrow> jsstring" where
  "trim s = rev (dropWhile is_space (rev (dropWhile is_space s)))"

text \<open>
  \<open>toLowerCase\<close> on the ASCII letters. The source only compares the lowered extension
  with \<open>".mp4"\<close> and \<open>".mp3"\<close>; no code unit outside ASCII is lowered to \<open>m\<close>, \<open>p\<close>, a
  digit or a dot, so leaving the other code units alone does not change those tests.
\<close>

definition toLowerCase :: "jsstring \<Rightarrow> jsstring" where
  "toLowerCase s = map (\<lambda>c. if 65 \<le> c \<and> c \<le> 90 then c + 32 else c) s"

text \<open>
  \<open>s.replace(/[C]/g, r)\<close> for a character class \<open>C\<close>: the scan goes from left to right
  and every code unit of the class is replaced by \<open>r\<close>.
\<close>

fun replace_class_g :: "(nat \<Rightarrow> bool) \<Rightarrow> jsstring \<Rightarrow> jsstring \<Rightarrow> jsstring" where
  "replace_class_g C r [] = []"
| "replace_class_g C r (c # cs) =
     (if C c then r @ replace_class_g C r cs else c # replace_class_g C r cs)"

text \<open>
  \<open>s.replace(/[C]+/g, r)\<close>: at the first code unit of the class the greedy \<open>+\<close> takes
  the whole run, the run is replaced by one \<open>r\<close>, and the scan goes on behind the run.
\<close>

function replace_runs_g :: "(nat \<Rightarrow> bool) \<Rightarrow> jsstring \<Rightarrow> jsstring \<Rightarrow> jsstring" where
  "replace_runs_g C r [] = []"
| "replace_runs_g C r (c # cs) =
     (if C c then r @ replace_runs_g C r (dropWhile C cs) else c # replace_runs_g C r cs)"
  by pat_completeness auto
termination
  by (relation "measure (\<lambda>(C, r, s). length s)") (auto simp: le_imp_less_Suc length_dropWhile_le)

text \<open>\<open>s.substring(0, n)\<close>.\<close>

definition substring0 :: "nat \<Rightarrow> jsstring \<Rightarrow> jsstring" where
  "substring0 n s = take n s"

section \<open>sanitizeFilename\<close>

text \<open>
  \<^verbatim>\<open>
  function sanitizeFilename(filename) {
    return filename
      .replace(/[^\w\s-]/g, "")
      .replace(/\s+/g, "_")
      .substring(0, 100);
  }
  \<close>
\<close>

definition sanitizeFilename :: "jsstring \<Rightarrow> jsstring" where
  "sanitizeFilename filename =
     substring0 100
       (replace_runs_g is_space (js ''_'')
         (replace_class_g (\<lambda>c. \<not> (is_word c \<or> is_space c \<or> c = 45)) [] filename))"

subsection \<open>The three steps as the specification words them\<close>

text \<open>Strip the characters outside word, space and hyphen.\<close>

definition spec_strip :: "jsstring \<Rightarrow> jsstring" where
  "spec_strip s = filter (\<lambda>c. is_word c \<or> is_space c \<or> c = 45) s"

text \<open>
  Collapse whitespace to underscores: a white space code unit becomes an underscore
  when it opens a run and disappears when it continues one. The flag says whether the
  code unit before was white space.
\<close>

fun collapse_from :: "bool \<Rightarrow> jsstring \<Rightarrow> jsstring" where
  "collapse_from b [] = []"
| "collapse_from b (c # cs) =
     (if is_space c then (if b then [] else [95]) @ collapse_from True cs
      else c # collapse_from False cs)"

definition spec_collapse :: "jsstring \<Rightarrow> jsstring" where
  "spec_collapse s = collapse_from False s"

definition spec_truncate :: "jsstring \<Rightarrow> jsstring" where
  "spec_truncate s = take 100 s"

section \<open>The cache directories\<close>

text \<open>
  \<^verbatim>\<open>
  const TEMP_DIR = path.join(__dirname, "temp");
  const TEMP_DIR_MP4 = path.join(TEMP_DIR, "mp4");
  const TEMP_DIR_MP3 = path.join(TEMP_DIR, "mp3");
  \<close>
  The two directories are flat. A directory is a list of entries; an entry has a
  name and the two fields of \<open>fs.Stats\<close> that the program reads. The place of an
  entry in the list has no meaning: \<open>fs.readdirSync\<close> lists the names in the order of
  their bytes, whatever was written first. The state of the file system is the pair
  of the two directories. \<open>mtimeMs\<close> is only compared, so an integer stands for it. A path \<open>path.join(dir, name)\<close> is the pair of the directory and the
  name: the names that the program joins come from a directory listing or are a
  title followed by a dot and the file type, and hold no path separator when the
  title is an output of \<open>sanitizeFilename\<close>.
\<close>

datatype tempdir = TEMP_DIR_MP4 | TEMP_DIR_MP3

record stats =
  st_size :: nat
  st_mtimeMs :: int

type_synonym path = "tempdir \<times> jsstring"

type_synonym directory = "(jsstring \<times> stats) list"

record filesystem =
  temp_mp4 :: directory
  temp_mp3 :: directory

definition entries :: "filesystem \<Rightarrow> tempdir \<Rightarrow> directory" where
  "entries fs d = (case d of TEMP_DIR_MP4 \<Rightarrow> temp_mp4 fs | TEMP_DIR_MP3 \<Rightarrow> temp_mp3 fs)"

definition set_entries :: "filesystem \<Rightarrow> tempdir \<Rightarrow> directory \<Rightarrow> filesystem" where
  "set_entries fs d es =
     (case d of TEMP_DIR_MP4 \<Rightarrow> fs\<lparr>temp_mp4 := es\<rparr> | TEMP_DIR_MP3 \<Rightarrow> fs\<lparr>temp_mp3 := es\<rparr>)"

definition path_join :: "tempdir \<Rightarrow> jsstring \<Rightarrow> path" where
  "path_join d name = (d, name)"

text \<open>
  \<open>fs.readdirSync\<close> returns the names sorted by \<open>strcmp\<close>, that is by their UTF-8
  bytes, which is the order of the code points. On UTF-16 code units that order is
  the lexicographic one after the surrogates (U+D800 to U+DFFF, the halves of the
  code points above U+FFFF) have been moved behind U+E000 to U+FFFF.
\<close>

definition code_point_rank :: "nat \<Rightarrow> nat" where
  "code_point_rank c =
     (if 55296 \<le> c \<and> c \<le> 57343 then c + 8192
      else if 57344 \<le> c \<and> c \<le> 65535 then c - 2048
      else c)"

definition readdirSync :: "filesystem \<Rightarrow> tempdir \<Rightarrow> jsstring list" where
  "readdirSync fs d = sort_key (map code_point_rank) (map fst (entries fs d))"

text \<open>\<open>fs.statSync\<close> throws when the file is missing: \<open>None\<close>.\<close>

definition statSync :: "filesystem \<Rightarrow> path \<Rightarrow> stats option" where
  "statSync fs p = map_of (entries fs (fst p)) (snd p)"

definition existsSync :: "filesystem \<Rightarrow> path \<Rightarrow> bool" where
  "existsSync fs p \<longleftrightarrow> statSync fs p \<noteq> None"

text \<open>
  \<open>fs.unlinkSync\<close> removes the entry. The program calls it on paths that exist (it
  tests \<open>existsSync\<close> before, or takes the name from a listing of the same state); on
  a missing file the model leaves the directory as it is.
\<close>

definition unlinkSync :: "filesystem \<Rightarrow> path \<Rightarrow> filesystem" where
  "unlinkSync fs p = set_entries fs (fst p) (filter (\<lambda>e. fst e \<noteq> snd p) (entries fs (fst p)))"

text \<open>
  Creating or replacing the file at a path. The program does this through
  \<open>renameSync\<close>, the external tools do it when they write a file. The entry is put at
  the end of the list; where \<open>readdirSync\<close> lists it depends on its name alone.
\<close>

definition put_file :: "filesystem \<Rightarrow> path \<Rightarrow> stats \<Rightarrow> filesystem" where
  "put_file fs p st =
     (let fs1 = unlinkSync fs p in set_entries fs1 (fst p) (entries fs1 (fst p) @ [(snd p, st)]))"

text \<open>
  \<open>fs.renameSync(old, new)\<close>: the file keeps its stats and a file at the new path is
  replaced. It throws when the old path is missing; the program renames a file that
  it has just found, and on a missing file the model leaves the state as it is.
\<close>

definition renameSync :: "filesystem \<Rightarrow> path \<Rightarrow> path \<Rightarrow> filesystem" where
  "renameSync fs old new =
     (case statSync fs old of
        None \<Rightarrow> fs
      | Some st \<Rightarrow> put_file (unlinkSync fs old) new st)"

text \<open>
  \<open>statSync(p).mtimeMs\<close> inside the comparator of \<open>sort\<close>; the names sorted there come
  from a listing of the same state, so the file exists.
\<close>

definition mtimeMs_at :: "filesystem \<Rightarrow> path \<Rightarrow> int" where
  "mtimeMs_at fs p = (case statSync fs p of Some st \<Rightarrow> st_mtimeMs st | None \<Rightarrow> 0)"

text \<open>
  \<open>path.extname\<close> (POSIX) of a file name without separator: from the last dot to the
  end; empty when there is no dot, when the last dot is the first character, and
  for the name \<open>..\<close>.
\<close>

fun last_dot :: "jsstring \<Rightarrow> jsstring option" where
  "last_dot [] = None"
| "last_dot (c # cs) =
     (case last_dot cs of
        Some e \<Rightarrow> Some e
      | None \<Rightarrow> if c = 46 then Some (c # cs) else None)"

definition extname :: "jsstring \<Rightarrow> jsstring" where
  "extname name =
     (case last_dot name of
        None \<Rightarrow> []
      | Some e \<Rightarrow> if length e = length name \<or> name = [46, 46] then [] else e)"

section \<open>The external tools\<close>

text \<open>
  \<open>ffmpeg\<close> (started with \<open>spawn\<close>) and \<open>ytdlp.downloadAsync\<close> are programs outside the
  repository. Each is a parameter: a function of its arguments and of the state of
  the cache directories, giving its outcome and the new state. The flag
  \<open>ffmpegAvailable\<close> is set once at startup.

  The other parameters talk to the network and do not write to the cache
  directories: \<open>ytdlp.getInfoAsync\<close> gives the title of the video (\<open>None\<close> when it
  throws, the empty string when the title is missing), \<open>uploadToGofile\<close> gives a
  link or the message of its error, \<open>sendMediaWithRetry\<close> gives the message of the
  error that it throws, if any.

  \<open>unlink_throws\<close> holds of the paths on which \<open>fs.unlinkSync\<close> throws although the
  entry is listed: a directory, or a file that a running download holds open on
  Windows. The \<open>finally\<close> blocks of the handlers catch that error and the model of
  their cleanup follows it. \<open>download_video\<close> does not catch it; a call in which one
  of its own \<open>unlinkSync\<close> or \<open>renameSync\<close> calls throws is not modelled.
\<close>

datatype arg = Str jsstring | Path path

text \<open>
  What the child process reports: the \<open>close\<close> event with the exit code (\<open>null\<close>, here
  \<open>None\<close>, when a signal ended it) and everything it wrote to stderr, or the \<open>error\<close>
  event with a message.
\<close>

datatype proc_result = Close "int option" jsstring | Proc_error jsstring

record env =
  ffmpegAvailable :: bool
  spawn_ffmpeg :: "arg list \<Rightarrow> filesystem \<Rightarrow> proc_result \<times> filesystem"
  ytdlp_downloadAsync :: "jsstring \<Rightarrow> jsstring \<Rightarrow> path \<Rightarrow> filesystem \<Rightarrow> jsstring option \<times> filesystem"
  ytdlp_getInfoAsync :: "jsstring \<Rightarrow> jsstring option"
  uploadToGofile :: "path \<Rightarrow> jsstring \<Rightarrow> jsstring + jsstring"
  sendMediaWithRetry :: "path \<Rightarrow> jsstring \<Rightarrow> jsstring option"
  unlink_throws :: "path \<Rightarrow> bool"

datatype ffmpeg_error = FFmpeg_exited "int option" jsstring | FFmpeg_error jsstring

datatype error =
    Download_failed jsstring
  | File_not_created jsstring
  | Downloaded_file_is_empty
  | ENOENT path

datatype console =
    Conversion_failed ffmpeg_error
  | Conversion_failed_using_original ffmpeg_error
  | Ytdlp_nodejs_error jsstring
  | Error_cleaning_partial_files

text \<open>
  The trace of a call: the runs of the external tools, the lines that
  \<open>download_video\<close> and the cleanup write with \<open>console.error\<close>, and the chat messages
  of the command handlers. The progress lines of \<open>console.log\<close> are left out.
\<close>

datatype handler_error =
    Type_error
  | Failed_to_get_video_information
  | Thrown error
  | Send_failed jsstring

datatype chat_message =
    Msg_invalid_url
  | Msg_fetching
  | Msg_downloading
  | Msg_found_in_cache
  | Msg_uploading_to_gofile
  | Msg_upload_complete jsstring
  | Msg_upload_failed jsstring
  | Msg_uploading_to_whatsapp
  | Msg_sent
  | Msg_error handler_error

datatype event =
    Ytdlp_download jsstring jsstring path
  | Ffmpeg_run "arg list"
  | Console_error console
  | Gofile_upload path jsstring
  | Send_media path jsstring
  | Chat chat_message

type_synonym 'a outcome = "'a \<times> filesystem \<times> event list"

text \<open>\<open>stderr.slice(-n)\<close>: the last \<open>n\<close> code units.\<close>

definition slice_last :: "nat \<Rightarrow> jsstring \<Rightarrow> jsstring" where
  "slice_last n s = drop (length s - n) s"

section \<open>convertToMp4 and convertToMp3\<close>

text \<open>
  Both start \<open>ffmpeg\<close> with their arguments and settle when the process closes: with
  \<open>outputPath\<close> for exit code 0, with an error otherwise.
\<close>

definition run_ffmpeg :: "env \<Rightarrow> arg list \<Rightarrow> path \<Rightarrow> filesystem \<Rightarrow> (ffmpeg_error + path) outcome" where
  "run_ffmpeg env args outputPath fs =
     (case spawn_ffmpeg env args fs of
        (Close code stderr, fs') \<Rightarrow>
          (if code = Some 0 then Inr outputPath
           else Inl (FFmpeg_exited code (slice_last 500 stderr)), fs', [Ffmpeg_run args])
      | (Proc_error msg, fs') \<Rightarrow> (Inl (FFmpeg_error msg), fs', [Ffmpeg_run args]))"

definition convertToMp4 :: "env \<Rightarrow> path \<Rightarrow> path \<Rightarrow> filesystem \<Rightarrow> (ffmpeg_error + path) outcome" where
  "convertToMp4 env inputPath outputPath fs =
     run_ffmpeg env
       [Str (js ''-i''), Path inputPath,
        Str (js ''-c:v''), Str (js ''libx264''),
        Str (js ''-c:a''), Str (js ''aac''),
        Str (js ''-preset''), Str (js ''fast''),
        Str (js ''-crf''), Str (js ''23''),
        Str (js ''-movflags''), Str (js ''+faststart''),
        Str (js ''-y''), Path outputPath]
       outputPath fs"

definition convertToMp3 :: "env \<Rightarrow> path \<Rightarrow> path \<Rightarrow> filesystem \<Rightarrow> (ffmpeg_error + path) outcome" where
  "convertToMp3 env inputPath outputPath fs =
     run_ffmpeg env
       [Str (js ''-i''), Path inputPath,
        Str (js ''-vn''),
        Str (js ''-acodec''), Str (js ''libmp3lame''),
        Str (js ''-ab''), Str (js ''192k''),
        Str (js ''-ar''), Str (js ''44100''),
        Str (js ''-y''), Path outputPath]
       outputPath fs"

text \<open>\<open>if (fileType === "mp3") await convertToMp3(..) else await convertToMp4(..)\<close>\<close>

definition convert :: "env \<Rightarrow> jsstring \<Rightarrow> path \<Rightarrow> path \<Rightarrow> filesystem \<Rightarrow> (ffmpeg_error + path) outcome" where
  "convert env fileType inputPath outputPath fs =
     (if fileType = js ''mp3'' then convertToMp3 env inputPath outputPath fs
      else convertToMp4 env inputPath outputPath fs)"

section \<open>download\_video\<close>

text \<open>\<open>filename.replace(/\.[^.]+$/, "")\<close>: the first dot that only non-dots follow, at least
  one, up to the end, is where the name is cut.\<close>

fun remove_extension :: "jsstring \<Rightarrow> jsstring" where
  "remove_extension [] = []"
| "remove_extension (c # cs) =
     (if c = 46 \<and> cs \<noteq> [] \<and> 46 \<notin> set cs then [] else c # remove_extension cs)"

definition targetDir_of :: "jsstring \<Rightarrow> tempdir" where
  "targetDir_of fileType = (if fileType = js ''mp3'' then TEMP_DIR_MP3 else TEMP_DIR_MP4)"

definition filePath_of :: "jsstring \<Rightarrow> jsstring \<Rightarrow> path" where
  "filePath_of filename fileType =
     path_join (targetDir_of fileType) (remove_extension filename @ js ''.'' @ fileType)"

text \<open>The three filters over the listing of the target directory (lines 938, 972, 1022).\<close>

definition cachedFiles_of :: "jsstring \<Rightarrow> jsstring list \<Rightarrow> jsstring list" where
  "cachedFiles_of baseFilename files =
     filter (\<lambda>f. startsWith f baseFilename \<and> \<not> includes_js f (js ''.part'')
               \<and> \<not> includes_js f (js ''.f'') \<and> \<not> endsWith f (js ''.mp4'')
               \<and> \<not> endsWith f (js ''.mp3'')) files"

definition partialFiles_of :: "jsstring \<Rightarrow> jsstring list \<Rightarrow> jsstring list" where
  "partialFiles_of baseFilename files =
     filter (\<lambda>f. startsWith f baseFilename
               \<and> (includes_js f (js ''.f'') \<or> includes_js f (js ''.part''))) files"

definition downloadedFiles_of :: "jsstring \<Rightarrow> jsstring list \<Rightarrow> jsstring list" where
  "downloadedFiles_of baseFilename files =
     filter (\<lambda>f. startsWith f baseFilename \<and> \<not> includes_js f (js ''.part'')
               \<and> \<not> includes_js f (js ''.f'')) files"

text \<open>
  \<open>downloadedFiles.sort((a, b) => bTime - aTime)\<close>: newest first; the sort of the
  engine is stable, as the insertion sort of the library is.
\<close>

definition sortedFiles_of :: "filesystem \<Rightarrow> tempdir \<Rightarrow> jsstring list \<Rightarrow> jsstring list" where
  "sortedFiles_of fs targetDir downloadedFiles =
     sort_key (\<lambda>a. - mtimeMs_at fs (path_join targetDir a)) downloadedFiles"

text \<open>
  Lines 1021 to 1078, after the download: find the newest file, check it, convert
  or rename it. \<open>sortedFiles\<close> is empty exactly when \<open>downloadedFiles\<close> is.
\<close>

definition download_video_finish :: "env \<Rightarrow> jsstring \<Rightarrow> jsstring \<Rightarrow> filesystem \<Rightarrow> (error + path) outcome" where
  "download_video_finish env filename fileType fs =
     (let baseFilename = remove_extension filename;
          targetDir = targetDir_of fileType;
          filePath = filePath_of filename fileType;
          downloadedFiles = downloadedFiles_of baseFilename (readdirSync fs targetDir)
      in case sortedFiles_of fs targetDir downloadedFiles of
           [] \<Rightarrow> (Inl (File_not_created baseFilename), fs, [])
         | newest # _ \<Rightarrow>
             (let downloadedPath = path_join targetDir newest;
                  ext = toLowerCase (extname newest)
              in case statSync fs downloadedPath of
                   None \<Rightarrow> (Inl (ENOENT downloadedPath), fs, [])
                 | Some stats \<Rightarrow>
                     if st_size stats = 0 then (Inl Downloaded_file_is_empty, fs, [])
                     else if ffmpegAvailable env then
                       (case convert env fileType downloadedPath filePath fs of
                          (Inr _, fs', tr) \<Rightarrow> (Inr filePath, fs', tr)
                        | (Inl e, fs', tr) \<Rightarrow>
                            (Inr downloadedPath, fs',
                             tr @ [Console_error (Conversion_failed_using_original e)]))
                     else if ext = js ''.mp4'' \<and> downloadedPath \<noteq> filePath then
                       (Inr filePath, renameSync fs downloadedPath filePath, [])
                     else if ext = js ''.mp3'' \<and> downloadedPath \<noteq> filePath then
                       (Inr filePath, renameSync fs downloadedPath filePath, [])
                     else (Inr downloadedPath, fs, [])))"

text \<open>Lines 985 to 1019: the download itself.\<close>

definition download_video_fetch :: "env \<Rightarrow> jsstring \<Rightarrow> jsstring \<Rightarrow> jsstring \<Rightarrow> filesystem \<Rightarrow> (error + unit) outcome" where
  "download_video_fetch env url filename fileType fs =
     (let hasFFmpeg = ffmpegAvailable env;
          trimmed_url = trim url;
          format_option = js ''bv[height<=?720]+ba/b[height<=?720]'';
          format = (if hasFFmpeg then format_option else js ''b[height<=?720]'');
          output = path_join (targetDir_of fileType) (remove_extension filename)
      in case ytdlp_downloadAsync env trimmed_url format output fs of
           (None, fs') \<Rightarrow> (Inr (), fs', [Ytdlp_download trimmed_url format output])
         | (Some message, fs') \<Rightarrow>
             (Inl (Download_failed message), fs',
              [Ytdlp_download trimmed_url format output,
               Console_error (Ytdlp_nodejs_error message)]))"

text \<open>Lines 971 to 983: remove the partial downloads of the title.\<close>

definition remove_partials :: "jsstring \<Rightarrow> tempdir \<Rightarrow> filesystem \<Rightarrow> filesystem" where
  "remove_partials baseFilename targetDir fs =
     fold (\<lambda>f fs'. let partialPath = path_join targetDir f
                   in if existsSync fs' partialPath then unlinkSync fs' partialPath else fs')
       (partialFiles_of baseFilename (readdirSync fs targetDir)) fs"

text \<open>Lines 971 to 1078: clean up, download, finish.\<close>

definition download_video_acquire :: "env \<Rightarrow> jsstring \<Rightarrow> jsstring \<Rightarrow> jsstring \<Rightarrow> filesystem \<Rightarrow> (error + path) outcome" where
  "download_video_acquire env url filename fileType fs =
     (case download_video_fetch env url filename fileType
             (remove_partials (remove_extension filename) (targetDir_of fileType) fs) of
        (Inl e, fs', tr) \<Rightarrow> (Inl e, fs', tr)
      | (Inr _, fs', tr) \<Rightarrow>
          (case download_video_finish env filename fileType fs' of
             (r, fs'', tr') \<Rightarrow> (r, fs'', tr @ tr')))"

text \<open>Lines 937 to 969: an original of the title that can be converted.\<close>

definition download_video_original :: "env \<Rightarrow> jsstring \<Rightarrow> jsstring \<Rightarrow> jsstring \<Rightarrow> filesystem \<Rightarrow> (error + path) outcome" where
  "download_video_original env url filename fileType fs =
     (let baseFilename = remove_extension filename;
          targetDir = targetDir_of fileType;
          filePath = filePath_of filename fileType
      in case cachedFiles_of baseFilename (readdirSync fs targetDir) of
           [] \<Rightarrow> download_video_acquire env url filename fileType fs
         | first # _ \<Rightarrow>
             (let originalPath = path_join targetDir first
              in case statSync fs originalPath of
                   None \<Rightarrow> (Inl (ENOENT originalPath), fs, [])
                 | Some stats \<Rightarrow>
                     if 0 < st_size stats then
                       (if ffmpegAvailable env then
                          (case convert env fileType originalPath filePath fs of
                             (Inr _, fs', tr) \<Rightarrow> (Inr filePath, fs', tr)
                           | (Inl e, fs', tr) \<Rightarrow>
                               (Inr originalPath, fs', tr @ [Console_error (Conversion_failed e)]))
                        else (Inr originalPath, fs, []))
                     else download_video_acquire env url filename fileType
                            (unlinkSync fs originalPath)))"

text \<open>
  \<^verbatim>\<open>async function download_video(url, filename, fileType)\<close>, lines 921 to 1078. The
  result is the returned path or the thrown error, with the state of the cache
  directories and the trace.
\<close>

definition download_video :: "env \<Rightarrow> jsstring \<Rightarrow> jsstring \<Rightarrow> jsstring \<Rightarrow> filesystem \<Rightarrow> (error + path) outcome" where
  "download_video env url filename fileType fs =
     (let filePath = filePath_of filename fileType
      in case statSync fs filePath of
           None \<Rightarrow> download_video_original env url filename fileType fs
         | Some stats \<Rightarrow>
             if 0 < st_size stats then (Inr filePath, fs, [])
             else download_video_original env url filename fileType (unlinkSync fs filePath))"

section \<open>The commands !ytdl3 and !ytdl4\<close>

text \<open>
  \<^verbatim>\<open>
  async function getYouTubeVideoInfo(url) {
    try { const info = await ytdlp.getInfoAsync(url, ..); return info; }
    catch (error) { ..; throw new Error("Failed to get video information"); }
  }
  \<close>
\<close>

definition getYouTubeVideoInfo :: "env \<Rightarrow> jsstring \<Rightarrow> handler_error + jsstring" where
  "getYouTubeVideoInfo env url =
     (case ytdlp_getInfoAsync env url of
        None \<Rightarrow> Inl Failed_to_get_video_information
      | Some title \<Rightarrow> Inr title)"

text \<open>The test \<open>isCached\<close> of the handlers; it only chooses between two chat messages.\<close>

definition isCached_of :: "jsstring \<Rightarrow> jsstring \<Rightarrow> tempdir \<Rightarrow> filesystem \<Rightarrow> bool" where
  "isCached_of videoTitle fileType tempDir fs =
     (case filter (\<lambda>f. startsWith f videoTitle \<and> endsWith f (js ''.'' @ fileType)
                      \<and> \<not> includes_js f (js ''.part'')) (readdirSync fs tempDir) of
        [] \<Rightarrow> False
      | first # _ \<Rightarrow>
          (case statSync fs (path_join tempDir first) of
             None \<Rightarrow> False
           | Some st \<Rightarrow> 0 < st_size st))"

text \<open>
  The \<open>try\<close> block of the two handlers (lines 1903 to 2015 and 2048 to 2165); they
  differ in the file type, the directory and the texts. \<open>only_search[0]\<close> is
  \<open>undefined\<close> for a command without argument, and \<open>.trim()\<close> then throws a
  \<open>TypeError\<close>. A file is sent directly up to \<open>MAX_SEND_SIZE_MB = 1\<close>, that is
  1048576 bytes, and uploaded beyond. \<open>chat.sendMessage\<close> is recorded in the trace.
\<close>

definition ytdl_try :: "env \<Rightarrow> jsstring \<Rightarrow> tempdir \<Rightarrow> jsstring list \<Rightarrow> filesystem \<Rightarrow> (handler_error + unit) outcome" where
  "ytdl_try env fileType tempDir only_search fs =
     (case only_search of
        [] \<Rightarrow> (Inl Type_error, fs, [])
      | first # _ \<Rightarrow>
          (let url = trim first
           in if url = [] \<or> (\<not> includes_js url (js ''youtube.com'') \<and> \<not> includes_js url (js ''youtu.be''))
              then (Inr (), fs, [Chat Msg_invalid_url])
              else case getYouTubeVideoInfo env url of
                Inl e \<Rightarrow> (Inl e, fs, [Chat Msg_fetching])
              | Inr title \<Rightarrow>
                  (let videoTitle = sanitizeFilename (if title = [] then js ''video'' else title);
                       isCached = isCached_of videoTitle fileType tempDir fs;
                       tr0 = [Chat Msg_fetching,
                              Chat (if isCached then Msg_found_in_cache else Msg_downloading)]
                   in case download_video env url videoTitle fileType fs of
                        (Inl e, fs', tr) \<Rightarrow> (Inl (Thrown e), fs', tr0 @ tr)
                      | (Inr filePath, fs', tr) \<Rightarrow>
                          (case statSync fs' filePath of
                             None \<Rightarrow> (Inl (Thrown (ENOENT filePath)), fs', tr0 @ tr)
                           | Some stats \<Rightarrow>
                               (let ext = toLowerCase (extname (snd filePath));
                                    outputFilename = videoTitle @ ext
                                in if 1048576 < st_size stats then
                                     (case uploadToGofile env filePath outputFilename of
                                        Inr link \<Rightarrow>
                                          (Inr (), fs',
                                           tr0 @ tr @ [Chat Msg_uploading_to_gofile,
                                             Gofile_upload filePath outputFilename,
                                             Chat (Msg_upload_complete link)])
                                      | Inl message \<Rightarrow>
                                          (Inr (), fs',
                                           tr0 @ tr @ [Chat Msg_uploading_to_gofile,
                                             Gofile_upload filePath outputFilename,
                                             Chat (Msg_upload_failed message)]))
                                   else
                                     (case sendMediaWithRetry env filePath outputFilename of
                                        None \<Rightarrow>
                                          (Inr (), fs',
                                           tr0 @ tr @ [Chat Msg_uploading_to_whatsapp,
                                             Send_media filePath outputFilename, Chat Msg_sent])
                                      | Some message \<Rightarrow>
                                          (Inl (Send_failed message), fs',
                                           tr0 @ tr @ [Chat Msg_uploading_to_whatsapp,
                                             Send_media filePath outputFilename])))))))"

text \<open>
  \<^verbatim>\<open>
  } finally {
    // Keep cached files for future requests - only clean up partial downloads
    try {
      const files = fs.readdirSync(TEMP_DIR_MP4);
      files.forEach((file) => {
        if (file.includes(".part") || file.includes(".temp")) {
          const partialPath = path.join(TEMP_DIR_MP4, file);
          fs.unlinkSync(partialPath);
        }
      });
    } catch (e) {
      console.error("Error cleaning partial files:", e);
    }
  }
  \<close>
  The loop of \<open>forEach\<close> over the listing. An \<open>unlinkSync\<close> that throws ends the loop:
  the error is caught and logged, the files deleted so far stay deleted, and the
  names that follow are not looked at.
\<close>

fun cleanup_files :: "env \<Rightarrow> tempdir \<Rightarrow> jsstring list \<Rightarrow> filesystem \<Rightarrow> filesystem \<times> event list" where
  "cleanup_files env tempDir [] fs = (fs, [])"
| "cleanup_files env tempDir (file # files) fs =
     (if includes_js file (js ''.part'') \<or> includes_js file (js ''.temp'') then
        (let partialPath = path_join tempDir file
         in if unlink_throws env partialPath
            then (fs, [Console_error Error_cleaning_partial_files])
            else cleanup_files env tempDir files (unlinkSync fs partialPath))
      else cleanup_files env tempDir files fs)"

definition finally_cleanup :: "env \<Rightarrow> tempdir \<Rightarrow> filesystem \<Rightarrow> filesystem \<times> event list" where
  "finally_cleanup env tempDir fs = cleanup_files env tempDir (readdirSync fs tempDir) fs"

text \<open>
  A handler: the \<open>try\<close> block, the \<open>catch\<close> block, which sends one message about the
  error, and the \<open>finally\<close> block, which runs however the other two end.
\<close>

definition ytdl_handler :: "env \<Rightarrow> jsstring \<Rightarrow> tempdir \<Rightarrow> jsstring list \<Rightarrow> filesystem \<Rightarrow> filesystem \<times> event list" where
  "ytdl_handler env fileType tempDir only_search fs =
     (case ytdl_try env fileType tempDir only_search fs of
        (Inl e, fs', tr) \<Rightarrow>
          (case finally_cleanup env tempDir fs' of
             (fs'', tr') \<Rightarrow> (fs'', tr @ [Chat (Msg_error e)] @ tr'))
      | (Inr _, fs', tr) \<Rightarrow>
          (case finally_cleanup env tempDir fs' of
             (fs'', tr') \<Rightarrow> (fs'', tr @ tr')))"

definition ytdl3 :: "env \<Rightarrow> jsstring list \<Rightarrow> filesystem \<Rightarrow> filesystem \<times> event list" where
  "ytdl3 env only_search fs = ytdl_handler env (js ''mp3'') TEMP_DIR_MP3 only_search fs"

definition ytdl4 :: "env \<Rightarrow> jsstring list \<Rightarrow> filesystem \<Rightarrow> filesystem \<times> event list" where
  "ytdl4 env only_search fs = ytdl_handler env (js ''mp4'') TEMP_DIR_MP4 only_search fs"

section \<open>Reading a trace\<close>

fun is_download :: "event \<Rightarrow> bool" where
  "is_download (Ytdlp_download url format output) = True"
| "is_download _ = False"

fun is_ffmpeg_run :: "event \<Rightarrow> bool" where
  "is_ffmpeg_run (Ffmpeg_run args) = True"
| "is_ffmpeg_run _ = False"

section \<open>Example tools and states\<close>

text \<open>
  Concrete tools for the examples below. The downloads write one file next to the
  output path; \<open>broken_download\<close> leaves a format fragment behind and fails.
  \<open>ffmpeg_ok\<close> writes its last argument and exits with 0, \<open>ffmpeg_fails\<close> exits
  with 1 and writes nothing.
\<close>

definition webm_download :: "jsstring \<Rightarrow> jsstring \<Rightarrow> path \<Rightarrow> filesystem \<Rightarrow> jsstring option \<times> filesystem" where
  "webm_download url format output fs =
     (None, put_file fs (fst output, snd output @ js ''.webm'') \<lparr>st_size = 7, st_mtimeMs = 100\<rparr>)"

definition mp4_download :: "jsstring \<Rightarrow> jsstring \<Rightarrow> path \<Rightarrow> filesystem \<Rightarrow> jsstring option \<times> filesystem" where
  "mp4_download url format output fs =
     (None, put_file fs (fst output, snd output @ js ''.mp4'') \<lparr>st_size = 7, st_mtimeMs = 100\<rparr>)"

definition broken_download :: "jsstring \<Rightarrow> jsstring \<Rightarrow> path \<Rightarrow> filesystem \<Rightarrow> jsstring option \<times> filesystem" where
  "broken_download url format output fs =
     (Some (js ''no stream''),
      put_file fs (fst output, snd output @ js ''.f137.mp4'') \<lparr>st_size = 3, st_mtimeMs = 100\<rparr>)"

definition ffmpeg_ok :: "arg list \<Rightarrow> filesystem \<Rightarrow> proc_result \<times> filesystem" where
  "ffmpeg_ok args fs =
     (case rev args of
        Path out # _ \<Rightarrow> (Close (Some 0) [], put_file fs out \<lparr>st_size = 4, st_mtimeMs = 200\<rparr>)
      | _ \<Rightarrow> (Proc_error [], fs))"

definition ffmpeg_fails :: "arg list \<Rightarrow> filesystem \<Rightarrow> proc_result \<times> filesystem" where
  "ffmpeg_fails args fs = (Close (Some 1) (js ''Invalid data''), fs)"

definition example_env ::
  "bool \<Rightarrow> (arg list \<Rightarrow> filesystem \<Rightarrow> proc_result \<times> filesystem)
     \<Rightarrow> (jsstring \<Rightarrow> jsstring \<Rightarrow> path \<Rightarrow> filesystem \<Rightarrow> jsstring option \<times> filesystem) \<Rightarrow> env" where
  "example_env available ffmpeg download =
     \<lparr>ffmpegAvailable = available, spawn_ffmpeg = ffmpeg, ytdlp_downloadAsync = download,
      ytdlp_getInfoAsync = (\<lambda>url. Some (js ''My Clip!!'')),
      uploadToGofile = (\<lambda>p name. Inr (js ''link'')),
      sendMediaWithRetry = (\<lambda>p name. None),
      unlink_throws = (\<lambda>p. False)\<rparr>"

text \<open>
  The same tools where \<open>Other.temp.mp4\<close> in the video directory cannot be unlinked
  (it is a directory, or a running download holds it open).
\<close>

definition locked_env :: env where
  "locked_env = (example_env False ffmpeg_fails broken_download)
     \<lparr>unlink_throws := (\<lambda>p. p = (TEMP_DIR_MP4, js ''Other.temp.mp4''))\<rparr>"

definition empty_cache :: filesystem where
  "empty_cache = \<lparr>temp_mp4 = [], temp_mp3 = []\<rparr>"

definition example_url :: jsstring where
  "example_url = js ''https://youtu.be/x''"

text \<open>A cache directory with files of another title, two of them partial.\<close>

definition stale_cache :: filesystem where
  "stale_cache = \<lparr>temp_mp4 =
     [(js ''Other.webm'', \<lparr>st_size = 5, st_mtimeMs = 1\<rparr>),
      (js ''Other.webm.part'', \<lparr>st_size = 2, st_mtimeMs = 2\<rparr>),
      (js ''Other.temp.mp4'', \<lparr>st_size = 2, st_mtimeMs = 3\<rparr>)],
     temp_mp3 = []\<rparr>"

section \<open>The scan of step 3 as the specification words it\<close>

text \<open>
  A partial marker in a file name: the fragment pattern \<open>.f\<close> or the suffix pattern
  \<open>.part\<close>, the two that line 976 of the source looks for.
\<close>

definition has_partial_marker :: "jsstring \<Rightarrow> bool" where
  "has_partial_marker f \<longleftrightarrow> includes_js f (js ''.f'') \<or> includes_js f (js ''.part'')"

text \<open>
  The files whose name starts with the title, excludes the partial-marker patterns,
  and does not already have the target extension of the requested kind.
\<close>

definition spec_candidates :: "jsstring \<Rightarrow> jsstring \<Rightarrow> jsstring list \<Rightarrow> jsstring list" where
  "spec_candidates title fileType files =
     filter (\<lambda>f. startsWith f title \<and> \<not> has_partial_marker f
               \<and> \<not> endsWith f (js ''.'' @ fileType)) files"

text \<open>
  The newest of a list of candidate files of a directory: one of them, with a
  modification time that none of them exceeds.
\<close>

definition is_newest :: "filesystem \<Rightarrow> tempdir \<Rightarrow> jsstring list \<Rightarrow> jsstring \<Rightarrow> bool" where
  "is_newest fs d candidates f \<longleftrightarrow>
     f \<in> set candidates
     \<and> list_all (\<lambda>g. mtimeMs_at fs (path_join d g) \<le> mtimeMs_at fs (path_join d f)) candidates"

text \<open>A video directory with an older file of the title, before and after a download.\<close>

definition mkv_cache :: filesystem where
  "mkv_cache = \<lparr>temp_mp4 = [(js ''My_Clip.mkv'', \<lparr>st_size = 5, st_mtimeMs = 1\<rparr>)], temp_mp3 = []\<rparr>"

definition mkv_webm_cache :: filesystem where
  "mkv_webm_cache = \<lparr>temp_mp4 = [(js ''My_Clip.mkv'', \<lparr>st_size = 5, st_mtimeMs = 1\<rparr>),
                                (js ''My_Clip.webm'', \<lparr>st_size = 7, st_mtimeMs = 100\<rparr>)],
                    temp_mp3 = []\<rparr>"

text \<open>A video directory whose canonical file of the title is empty.\<close>

definition corrupt_cache :: filesystem where
  "corrupt_cache = \<lparr>temp_mp4 = [(js ''My_Clip.mp4'', \<lparr>st_size = 0, st_mtimeMs = 1\<rparr>),
                               (js ''Other.webm'', \<lparr>st_size = 5, st_mtimeMs = 2\<rparr>)],
                   temp_mp3 = []\<rparr>"

text \<open>A download that writes its file with an upper-case extension.\<close>

definition upper_download :: "jsstring \<Rightarrow> jsstring \<Rightarrow> path \<Rightarrow> filesystem \<Rightarrow> jsstring option \<times> filesystem" where
  "upper_download url format output fs =
     (None, put_file fs (fst output, snd output @ js ''.MP4'') \<lparr>st_size = 7, st_mtimeMs = 100\<rparr>)"

text \<open>
  A video directory with the files of two other titles, \<open>My_Clip-2\<close> and
  \<open>My_Clip-3\<close>, that share the prefix \<open>My_Clip\<close>, the first of them empty. The hyphen
  comes before the dot, so both are listed before \<open>My_Clip.webm\<close>.
\<close>

definition shared_prefix_cache :: filesystem where
  "shared_prefix_cache =
     \<lparr>temp_mp4 = [(js ''My_Clip-2.webm'', \<lparr>st_size = 0, st_mtimeMs = 1\<rparr>),
                  (js ''My_Clip-3.webm'', \<lparr>st_size = 5, st_mtimeMs = 2\<rparr>)],
      temp_mp3 = []\<rparr>"

text \<open>An audio directory that holds a video file of the title.\<close>

definition video_in_audio_cache :: filesystem where
  "video_in_audio_cache =
     \<lparr>temp_mp4 = [], temp_mp3 = [(js ''My_Clip.mp4'', \<lparr>st_size = 7, st_mtimeMs = 1\<rparr>)]\<rparr>"

section \<open>The cleanup as the amended claim words it\<close>

text \<open>
  The names that the cleanup deletes: those of the listing that contain \<open>.part\<close> or
  \<open>.temp\<close>, in listing order, up to the first one whose \<open>unlinkSync\<close> throws.
\<close>

definition cleanup_deletes :: "env \<Rightarrow> tempdir \<Rightarrow> jsstring list \<Rightarrow> jsstring list" where
  "cleanup_deletes env d names =
     takeWhile (\<lambda>f. \<not> unlink_throws env (path_join d f))
       (filter (\<lambda>f. sublist (js ''.part'') f \<or> sublist (js ''.temp'') f) names)"

section \<open>The completed files of a title\<close>

text \<open>
  The files of a directory that \<open>download_video\<close> takes for finished media of a title
  (the filter of line 1022: the name starts with the title and bears no partial
  marker) and that are not empty.
\<close>

definition completed_files :: "jsstring \<Rightarrow> tempdir \<Rightarrow> filesystem \<Rightarrow> (jsstring \<times> stats) list" where
  "completed_files title d fs =
     filter (\<lambda>e. startsWith (fst e) title \<and> \<not> includes_js (fst e) (js ''.part'')
               \<and> \<not> includes_js (fst e) (js ''.f'') \<and> 0 < st_size (snd e)) (entries fs d)"

text \<open>The number of runs of the external tools in a trace.\<close>

definition tool_runs :: "event list \<Rightarrow> nat" where
  "tool_runs tr = length (filter (\<lambda>e. is_download e \<or> is_ffmpeg_run e) tr)"

text \<open>
  What the bound below asks of the external tools: a run of \<open>ffmpeg\<close> or of the
  downloader leaves at most one more completed file of the title than it found.
\<close>

definition tools_add_one :: "env \<Rightarrow> jsstring \<Rightarrow> tempdir \<Rightarrow> bool" where
  "tools_add_one env title d \<longleftrightarrow>
     (\<forall>args s. length (completed_files title d (snd (spawn_ffmpeg env args s)))
                 \<le> Suc (length (completed_files title d s)))
     \<and> (\<forall>u f out s. length (completed_files title d (snd (ytdlp_downloadAsync env u f out s)))
                 \<le> Suc (length (completed_files title d s)))"

section \<open>Facts about the string functions\<close>

lemma js_underscore: "js ''_'' = [95]"
  by (simp add: js_def)

lemma startsWith_prefix: "startsWith s p \<longleftrightarrow> prefix p s"
  unfolding startsWith_def prefix_def
  by (metis append_eq_conv_conj append_take_drop_id)

lemma endsWith_suffix: "endsWith s p \<longleftrightarrow> suffix p s"
proof
  assume "endsWith s p"
  then have "s = take (length s - length p) s @ p"
    by (metis append_take_drop_id endsWith_def)
  then show "suffix p s"
    by (metis suffixI)
next
  assume "suffix p s"
  then obtain xs where "s = xs @ p"
    by (auto simp: suffix_def)
  then show "endsWith s p"
    by (simp add: endsWith_def)
qed

lemma includes_sublist: "includes_js s p \<longleftrightarrow> sublist p s"
  by (induction s) (auto simp: startsWith_prefix sublist_Cons_right)

lemma replace_class_g_filter: "replace_class_g C [] s = filter (\<lambda>c. \<not> C c) s"
  by (induction s) auto

lemma collapse_from_True:
  "collapse_from True s = collapse_from False (dropWhile is_space s)"
  by (induction s) auto

lemma replace_runs_g_collapse:
  "replace_runs_g is_space [95] s = collapse_from False s"
proof (induction s rule: length_induct)
  case (1 s)
  show ?case
  proof (cases s)
    case Nil
    then show ?thesis by simp
  next
    case (Cons c cs)
    have short: "length (dropWhile is_space cs) < length s"
      using Cons length_dropWhile_le [of is_space cs] by simp
    have "length cs < length s"
      using Cons by simp
    with 1 short Cons show ?thesis
      by (simp add: collapse_from_True)
  qed
qed

lemma collapse_from_no_space:
  "c \<in> set (collapse_from b s) \<Longrightarrow> \<not> is_space c"
  by (induction b s rule: collapse_from.induct) (auto simp: is_space_def split: if_splits)

lemma collapse_from_chars:
  "c \<in> set (collapse_from b s) \<Longrightarrow> c = 95 \<or> c \<in> set s"
  by (induction b s rule: collapse_from.induct) (auto split: if_splits)

section \<open>Sanitization\<close>

text \<open>
  C9. For every input string the title sanitization strips every code unit outside
  word, space and hyphen, then collapses each whitespace run to one underscore, then
  truncates to at most 100 code units, in that order. The result has at most 100
  code units, each a word character or a hyphen.
\<close>

theorem sanitizeFilename_steps:
  "sanitizeFilename s = spec_truncate (spec_collapse (spec_strip s))
   \<and> length (sanitizeFilename s) \<le> 100
   \<and> (\<forall>c \<in> set (sanitizeFilename s). is_word c \<or> c = 45)"
proof -
  have eq: "sanitizeFilename s = spec_truncate (spec_collapse (spec_strip s))"
    by (simp add: sanitizeFilename_def substring0_def spec_truncate_def spec_collapse_def
        spec_strip_def js_underscore replace_class_g_filter replace_runs_g_collapse)
  have len: "length (sanitizeFilename s) \<le> 100"
    by (simp add: eq spec_truncate_def)
  have chars: "is_word c \<or> c = 45" if "c \<in> set (sanitizeFilename s)" for c
  proof -
    from that have mem: "c \<in> set (collapse_from False (spec_strip s))"
      unfolding eq spec_truncate_def spec_collapse_def by (rule in_set_takeD)
    then have nsp: "\<not> is_space c"
      by (rule collapse_from_no_space)
    from mem have "c = 95 \<or> c \<in> set (spec_strip s)"
      by (rule collapse_from_chars)
    with nsp show ?thesis
      by (auto simp: spec_strip_def is_word_def)
  qed
  from eq len chars show ?thesis by blast
qed

theorem sanitizeFilename_steps_witness:
  "sanitizeFilename (js ''My Clip!!'') = js ''My_Clip''
   \<and> spec_truncate (spec_collapse (spec_strip (js ''My Clip!!''))) = js ''My_Clip''
   \<and> length (js ''My_Clip'') \<le> 100
   \<and> list_all (\<lambda>c. is_word c \<or> c = 45) (js ''My_Clip'')"
  using sanitizeFilename_steps [of "js ''My Clip!!''"]
  by (simp add: js_def spec_truncate_def spec_collapse_def spec_strip_def is_word_def is_space_def)

lemmas string_defs = js_def startsWith_def endsWith_def is_word_def is_space_def trim_def
  toLowerCase_def substring0_def extname_def

lemmas fs_defs = entries_def set_entries_def path_join_def readdirSync_def code_point_rank_def
  statSync_def existsSync_def unlinkSync_def
  put_file_def renameSync_def mtimeMs_at_def

lemmas pipeline_defs = download_video_def download_video_original_def download_video_acquire_def
  download_video_fetch_def download_video_finish_def remove_partials_def cachedFiles_of_def
  partialFiles_of_def downloadedFiles_of_def sortedFiles_of_def filePath_of_def targetDir_of_def
  convert_def convertToMp3_def convertToMp4_def run_ffmpeg_def slice_last_def Let_def

lemmas handler_defs = ytdl3_def ytdl4_def ytdl_handler_def ytdl_try_def finally_cleanup_def
  isCached_of_def getYouTubeVideoInfo_def sanitizeFilename_def

lemmas example_defs = example_env_def webm_download_def mp4_download_def broken_download_def
  upper_download_def ffmpeg_ok_def ffmpeg_fails_def empty_cache_def example_url_def
  locked_env_def video_in_audio_cache_def
  stale_cache_def mkv_cache_def mkv_webm_cache_def corrupt_cache_def

section \<open>Facts about the directory operations\<close>

lemma entries_set_entries:
  "entries (set_entries fs d es) d' = (if d' = d then es else entries fs d')"
  by (cases d; cases d') (simp_all add: entries_def set_entries_def)

lemma set_entries_twice: "set_entries (set_entries fs d es) d es' = set_entries fs d es'"
  by (cases d) (simp_all add: set_entries_def)

lemma set_entries_same: "set_entries fs d (entries fs d) = fs"
  by (cases d) (simp_all add: set_entries_def entries_def)

lemma unlinkSync_entries:
  "entries (unlinkSync fs (d, n)) d' = (if d' = d then filter (\<lambda>e. fst e \<noteq> n) (entries fs d) else entries fs d')"
  by (simp add: unlinkSync_def entries_set_entries)

lemma set_readdirSync: "set (readdirSync fs d) = fst ` set (entries fs d)"
  by (simp add: readdirSync_def)

lemma cleanup_files_state:
  "fst (cleanup_files env d names fs)
   = set_entries fs d
       (filter (\<lambda>e. fst e \<notin> set (takeWhile (\<lambda>f. \<not> unlink_throws env (path_join d f))
                       (filter (\<lambda>f. includes_js f (js ''.part'') \<or> includes_js f (js ''.temp'')) names)))
          (entries fs d))"
proof (induction names arbitrary: fs)
  case Nil
  show ?case by (simp add: set_entries_same)
next
  case (Cons n names)
  let ?match = "\<lambda>f. includes_js f (js ''.part'') \<or> includes_js f (js ''.temp'')"
  let ?rest = "takeWhile (\<lambda>f. \<not> unlink_throws env (path_join d f)) (filter ?match names)"
  show ?case
  proof (cases "?match n")
    case False
    then show ?thesis
      using Cons.IH [of fs] by simp
  next
    case True
    show ?thesis
    proof (cases "unlink_throws env (path_join d n)")
      case throws: True
      with True show ?thesis
        by (simp add: set_entries_same)
    next
      case False
      let ?fs1 = "unlinkSync fs (path_join d n)"
      have "fst (cleanup_files env d (n # names) fs) = fst (cleanup_files env d names ?fs1)"
        using True False by simp
      also have "\<dots> = set_entries ?fs1 d (filter (\<lambda>e. fst e \<notin> set ?rest) (entries ?fs1 d))"
        by (rule Cons.IH)
      also have "\<dots> = set_entries fs d
          (filter (\<lambda>e. fst e \<notin> set ?rest) (filter (\<lambda>e. fst e \<noteq> n) (entries fs d)))"
        by (simp add: unlinkSync_def path_join_def entries_set_entries set_entries_twice)
      also have "filter (\<lambda>e. fst e \<notin> set ?rest) (filter (\<lambda>e. fst e \<noteq> n) (entries fs d))
          = filter (\<lambda>e. fst e \<notin> set (n # ?rest)) (entries fs d)"
        by (auto intro: filter_cong)
      finally show ?thesis
        using True False by simp
    qed
  qed
qed

lemma finally_cleanup_state:
  "fst (finally_cleanup env d fs)
   = set_entries fs d (filter (\<lambda>e. fst e \<notin> set (cleanup_deletes env d (readdirSync fs d))) (entries fs d))"
  by (simp add: finally_cleanup_def cleanup_files_state cleanup_deletes_def includes_sublist)

lemma cleanup_deletes_all:
  assumes "\<forall>f \<in> set names. \<not> unlink_throws env (path_join d f)"
  shows "set (cleanup_deletes env d names)
       = {f \<in> set names. sublist (js ''.part'') f \<or> sublist (js ''.temp'') f}"
proof -
  have "takeWhile (\<lambda>f. \<not> unlink_throws env (path_join d f))
          (filter (\<lambda>f. sublist (js ''.part'') f \<or> sublist (js ''.temp'') f) names)
      = filter (\<lambda>f. sublist (js ''.part'') f \<or> sublist (js ''.temp'') f) names"
    using assms by (simp add: takeWhile_eq_all_conv)
  then have "cleanup_deletes env d names
      = filter (\<lambda>f. sublist (js ''.part'') f \<or> sublist (js ''.temp'') f) names"
    by (simp only: cleanup_deletes_def)
  then show ?thesis
    by simp
qed

lemma finally_cleanup_all:
  assumes "\<forall>f \<in> set (readdirSync fs d). \<not> unlink_throws env (path_join d f)"
  shows "entries (fst (finally_cleanup env d fs)) d
       = filter (\<lambda>e. \<not> (sublist (js ''.part'') (fst e) \<or> sublist (js ''.temp'') (fst e))) (entries fs d)"
proof -
  have "filter (\<lambda>e. fst e \<notin> set (cleanup_deletes env d (readdirSync fs d))) (entries fs d)
      = filter (\<lambda>e. \<not> (sublist (js ''.part'') (fst e) \<or> sublist (js ''.temp'') (fst e))) (entries fs d)"
    by (rule filter_cong) (auto simp: cleanup_deletes_all [OF assms] set_readdirSync)
  then show ?thesis
    by (simp add: finally_cleanup_state entries_set_entries)
qed

lemma ytdl_handler_state:
  "fst (ytdl_handler env fileType d a fs)
   = fst (finally_cleanup env d (fst (snd (ytdl_try env fileType d a fs))))"
  by (simp add: ytdl_handler_def split: prod.splits sum.splits)

section \<open>Failed downloads, evaluated\<close>

lemma broken_run_try:
  "fst (snd (ytdl_try (example_env False ffmpeg_fails broken_download) (js ''mp4'')
      TEMP_DIR_MP4 [example_url] stale_cache))
   = \<lparr>temp_mp4 =
       [(js ''Other.webm'', \<lparr>st_size = 5, st_mtimeMs = 1\<rparr>),
        (js ''Other.webm.part'', \<lparr>st_size = 2, st_mtimeMs = 2\<rparr>),
        (js ''Other.temp.mp4'', \<lparr>st_size = 2, st_mtimeMs = 3\<rparr>),
        (js ''My_Clip.f137.mp4'', \<lparr>st_size = 3, st_mtimeMs = 100\<rparr>)],
      temp_mp3 = []\<rparr>"
  by (simp add: string_defs fs_defs pipeline_defs handler_defs example_defs)


lemma locked_run_handler:
  "readdirSync (fst (ytdl4 locked_env [example_url] stale_cache)) TEMP_DIR_MP4
   = [js ''My_Clip.f137.mp4'', js ''Other.temp.mp4'', js ''Other.webm'', js ''Other.webm.part'']"
  by (simp add: string_defs fs_defs pipeline_defs handler_defs example_defs)

section \<open>The cleanup of the handlers\<close>

text \<open>
  C10 as it is stated: the \<open>finally\<close> block deletes every file of the kind's cache
  directory whose name contains \<open>.part\<close> or \<open>.temp\<close>. Here \<open>Other.temp.mp4\<close> cannot be
  unlinked. It is the first match of the listing, its \<open>unlinkSync\<close> throws, the
  \<open>catch\<close> logs the error, and the match that follows, \<open>Other.webm.part\<close>, which
  could have been unlinked, is still there after the handler.
\<close>

theorem later_matches_survive_failed_unlink:
  "readdirSync (fst (ytdl4 locked_env [example_url] stale_cache)) TEMP_DIR_MP4
     = [js ''My_Clip.f137.mp4'', js ''Other.temp.mp4'', js ''Other.webm'', js ''Other.webm.part'']
   \<and> includes_js (js ''Other.temp.mp4'') (js ''.temp'')
   \<and> includes_js (js ''Other.webm.part'') (js ''.part'')
   \<and> unlink_throws locked_env (TEMP_DIR_MP4, js ''Other.temp.mp4'')
   \<and> \<not> unlink_throws locked_env (TEMP_DIR_MP4, js ''Other.webm.part'')
   \<and> last (snd (ytdl4 locked_env [example_url] stale_cache))
     = Console_error Error_cleaning_partial_files"
proof -
  have marked: "includes_js (js ''Other.temp.mp4'') (js ''.temp'')"
    "includes_js (js ''Other.webm.part'') (js ''.part'')"
    by (simp_all add: string_defs)
  have free: "unlink_throws locked_env (TEMP_DIR_MP4, js ''Other.temp.mp4'')"
    "\<not> unlink_throws locked_env (TEMP_DIR_MP4, js ''Other.webm.part'')"
    by (simp_all add: locked_env_def js_def)
  have logged: "last (snd (ytdl4 locked_env [example_url] stale_cache))
     = Console_error Error_cleaning_partial_files"
    by (simp add: string_defs fs_defs pipeline_defs handler_defs example_defs)
  from locked_run_handler marked free logged show ?thesis
    by (intro conjI)
qed

text \<open>
  C10, amended. For every !ytdl3 and !ytdl4 request, the \<open>finally\<close> block deletes
  files of the kind's cache directory whose name contains \<open>.part\<close> or \<open>.temp\<close>,
  whatever title the name starts with: in listing order, up to the first one whose
  \<open>unlinkSync\<close> throws, and all of them when none throws. It deletes no other file:
  the directory after the handler is the directory after the \<open>try\<close> block without
  those entries, and the other directory is the one the \<open>try\<close> block left.
\<close>

theorem cleanup_deletes_up_to_first_failure:
  "entries (fst (ytdl4 env only_search fs)) TEMP_DIR_MP4
     = filter (\<lambda>e. fst e \<notin> set (cleanup_deletes env TEMP_DIR_MP4
                  (readdirSync (fst (snd (ytdl_try env (js ''mp4'') TEMP_DIR_MP4 only_search fs)))
                     TEMP_DIR_MP4)))
         (entries (fst (snd (ytdl_try env (js ''mp4'') TEMP_DIR_MP4 only_search fs))) TEMP_DIR_MP4)
   \<and> entries (fst (ytdl4 env only_search fs)) TEMP_DIR_MP3
     = entries (fst (snd (ytdl_try env (js ''mp4'') TEMP_DIR_MP4 only_search fs))) TEMP_DIR_MP3
   \<and> ((\<forall>f \<in> set (readdirSync (fst (snd (ytdl_try env (js ''mp4'') TEMP_DIR_MP4 only_search fs)))
                     TEMP_DIR_MP4). \<not> unlink_throws env (path_join TEMP_DIR_MP4 f))
        \<longrightarrow> entries (fst (ytdl4 env only_search fs)) TEMP_DIR_MP4
            = filter (\<lambda>e. \<not> (sublist (js ''.part'') (fst e) \<or> sublist (js ''.temp'') (fst e)))
                (entries (fst (snd (ytdl_try env (js ''mp4'') TEMP_DIR_MP4 only_search fs)))
                   TEMP_DIR_MP4))
   \<and> entries (fst (ytdl3 env only_search fs)) TEMP_DIR_MP3
     = filter (\<lambda>e. fst e \<notin> set (cleanup_deletes env TEMP_DIR_MP3
                  (readdirSync (fst (snd (ytdl_try env (js ''mp3'') TEMP_DIR_MP3 only_search fs)))
                     TEMP_DIR_MP3)))
         (entries (fst (snd (ytdl_try env (js ''mp3'') TEMP_DIR_MP3 only_search fs))) TEMP_DIR_MP3)
   \<and> entries (fst (ytdl3 env only_search fs)) TEMP_DIR_MP4
     = entries (fst (snd (ytdl_try env (js ''mp3'') TEMP_DIR_MP3 only_search fs))) TEMP_DIR_MP4
   \<and> ((\<forall>f \<in> set (readdirSync (fst (snd (ytdl_try env (js ''mp3'') TEMP_DIR_MP3 only_search fs)))
                     TEMP_DIR_MP3). \<not> unlink_throws env (path_join TEMP_DIR_MP3 f))
        \<longrightarrow> entries (fst (ytdl3 env only_search fs)) TEMP_DIR_MP3
            = filter (\<lambda>e. \<not> (sublist (js ''.part'') (fst e) \<or> sublist (js ''.temp'') (fst e)))
                (entries (fst (snd (ytdl_try env (js ''mp3'') TEMP_DIR_MP3 only_search fs)))
                   TEMP_DIR_MP3))"
proof -
  have part: "entries (fst (ytdl_handler env fileType d only_search fs)) d
      = filter (\<lambda>e. fst e \<notin> set (cleanup_deletes env d
                   (readdirSync (fst (snd (ytdl_try env fileType d only_search fs))) d)))
          (entries (fst (snd (ytdl_try env fileType d only_search fs))) d)" for fileType d
    by (simp add: ytdl_handler_state finally_cleanup_state entries_set_entries)
  have other: "entries (fst (ytdl_handler env fileType d only_search fs)) d'
      = entries (fst (snd (ytdl_try env fileType d only_search fs))) d'" if "d' \<noteq> d" for fileType d d'
    using that by (simp add: ytdl_handler_state finally_cleanup_state entries_set_entries)
  have all: "entries (fst (ytdl_handler env fileType d only_search fs)) d
      = filter (\<lambda>e. \<not> (sublist (js ''.part'') (fst e) \<or> sublist (js ''.temp'') (fst e)))
          (entries (fst (snd (ytdl_try env fileType d only_search fs))) d)"
    if "\<forall>f \<in> set (readdirSync (fst (snd (ytdl_try env fileType d only_search fs))) d).
          \<not> unlink_throws env (path_join d f)" for fileType d
    using that by (simp only: ytdl_handler_state finally_cleanup_all)
  show ?thesis
    unfolding ytdl3_def ytdl4_def
    using part [of "js ''mp4''" TEMP_DIR_MP4] part [of "js ''mp3''" TEMP_DIR_MP3]
      other [of TEMP_DIR_MP3 TEMP_DIR_MP4 "js ''mp4''"] other [of TEMP_DIR_MP4 TEMP_DIR_MP3 "js ''mp3''"]
      all [of "js ''mp4''" TEMP_DIR_MP4] all [of "js ''mp3''" TEMP_DIR_MP3]
    by (intro conjI impI) simp_all
qed

theorem cleanup_deletes_up_to_first_failure_witness:
  "entries (fst (snd (ytdl_try (example_env False ffmpeg_fails broken_download) (js ''mp4'')
      TEMP_DIR_MP4 [example_url] stale_cache))) TEMP_DIR_MP4
     = [(js ''Other.webm'', \<lparr>st_size = 5, st_mtimeMs = 1\<rparr>),
        (js ''Other.webm.part'', \<lparr>st_size = 2, st_mtimeMs = 2\<rparr>),
        (js ''Other.temp.mp4'', \<lparr>st_size = 2, st_mtimeMs = 3\<rparr>),
        (js ''My_Clip.f137.mp4'', \<lparr>st_size = 3, st_mtimeMs = 100\<rparr>)]
   \<and> list_all (\<lambda>f. \<not> unlink_throws (example_env False ffmpeg_fails broken_download)
                     (path_join TEMP_DIR_MP4 f))
       (readdirSync (fst (snd (ytdl_try (example_env False ffmpeg_fails broken_download) (js ''mp4'')
          TEMP_DIR_MP4 [example_url] stale_cache))) TEMP_DIR_MP4)
   \<and> entries (fst (ytdl4 (example_env False ffmpeg_fails broken_download) [example_url] stale_cache))
        TEMP_DIR_MP4
     = [(js ''Other.webm'', \<lparr>st_size = 5, st_mtimeMs = 1\<rparr>),
        (js ''My_Clip.f137.mp4'', \<lparr>st_size = 3, st_mtimeMs = 100\<rparr>)]"
proof -
  let ?env = "example_env False ffmpeg_fails broken_download"
  let ?before = "fst (snd (ytdl_try ?env (js ''mp4'') TEMP_DIR_MP4 [example_url] stale_cache))"
  have before: "entries ?before TEMP_DIR_MP4
     = [(js ''Other.webm'', \<lparr>st_size = 5, st_mtimeMs = 1\<rparr>),
        (js ''Other.webm.part'', \<lparr>st_size = 2, st_mtimeMs = 2\<rparr>),
        (js ''Other.temp.mp4'', \<lparr>st_size = 2, st_mtimeMs = 3\<rparr>),
        (js ''My_Clip.f137.mp4'', \<lparr>st_size = 3, st_mtimeMs = 100\<rparr>)]"
    by (simp add: broken_run_try entries_def)
  have free: "\<forall>f \<in> set (readdirSync ?before TEMP_DIR_MP4). \<not> unlink_throws ?env (path_join TEMP_DIR_MP4 f)"
    by (simp add: example_env_def)
  from cleanup_deletes_up_to_first_failure [of ?env "[example_url]" stale_cache,
      THEN conjunct2, THEN conjunct2, THEN conjunct1] free
  have "entries (fst (ytdl4 ?env [example_url] stale_cache)) TEMP_DIR_MP4
     = filter (\<lambda>e. \<not> (sublist (js ''.part'') (fst e) \<or> sublist (js ''.temp'') (fst e)))
        (entries ?before TEMP_DIR_MP4)"
    by (rule mp)
  also have "\<dots> = [(js ''Other.webm'', \<lparr>st_size = 5, st_mtimeMs = 1\<rparr>),
        (js ''My_Clip.f137.mp4'', \<lparr>st_size = 3, st_mtimeMs = 100\<rparr>)]"
    unfolding before includes_sublist [symmetric] by (simp add: string_defs)
  finally have after: "entries (fst (ytdl4 ?env [example_url] stale_cache)) TEMP_DIR_MP4
     = [(js ''Other.webm'', \<lparr>st_size = 5, st_mtimeMs = 1\<rparr>),
        (js ''My_Clip.f137.mp4'', \<lparr>st_size = 3, st_mtimeMs = 100\<rparr>)]" .
  from free have "list_all (\<lambda>f. \<not> unlink_throws ?env (path_join TEMP_DIR_MP4 f))
       (readdirSync ?before TEMP_DIR_MP4)"
    by (simp only: list_all_iff)
  with before after show ?thesis
    by (intro conjI)
qed




section \<open>The candidates of step 3\<close>

text \<open>
  C4 as the specification states it: the candidates are the files that start with
  the title, bear no partial marker and do not have the target extension of the
  requested kind, so that a file with the extension of the other kind is a candidate.
  For a video request the source leaves \<open>My_Clip.mp3\<close> out, and with that file alone
  in the directory \<open>download_video\<close> goes on to the download.
\<close>

theorem other_kind_is_no_candidate:
  "cachedFiles_of (js ''My_Clip'') [js ''My_Clip.mp3''] = []
   \<and> spec_candidates (js ''My_Clip'') (js ''mp4'') [js ''My_Clip.mp3''] = [js ''My_Clip.mp3'']
   \<and> list_ex is_download (snd (snd (download_video (example_env False ffmpeg_fails webm_download)
         example_url (js ''My_Clip'') (js ''mp4'')
         \<lparr>temp_mp4 = [(js ''My_Clip.mp3'', \<lparr>st_size = 5, st_mtimeMs = 1\<rparr>)], temp_mp3 = []\<rparr>)))"
  by (simp add: string_defs fs_defs pipeline_defs example_defs spec_candidates_def
      has_partial_marker_def Let_def)

text \<open>
  C4, amended. The candidates of step 3 are exactly the files of the directory, in
  listing order, whose name starts with the title, contains neither \<open>.part\<close> nor
  \<open>.f\<close>, and ends with neither \<open>.mp4\<close> nor \<open>.mp3\<close>, whichever kind is requested: they
  are the files that the specification's scan accepts for both kinds.
\<close>

theorem candidates_exclude_both_extensions:
  "cachedFiles_of title files
     = filter (\<lambda>f. prefix title f \<and> \<not> sublist (js ''.part'') f \<and> \<not> sublist (js ''.f'') f
                 \<and> \<not> suffix (js ''.mp4'') f \<and> \<not> suffix (js ''.mp3'') f) files
   \<and> cachedFiles_of title files
     = spec_candidates title (js ''mp3'') (spec_candidates title (js ''mp4'') files)
   \<and> set (cachedFiles_of title files)
     = set (spec_candidates title (js ''mp4'') files) \<inter> set (spec_candidates title (js ''mp3'') files)"
proof -
  have dots: "js ''.'' @ js ''mp4'' = js ''.mp4''" "js ''.'' @ js ''mp3'' = js ''.mp3''"
    by (simp_all add: js_def)
  have a: "cachedFiles_of title files
     = filter (\<lambda>f. prefix title f \<and> \<not> sublist (js ''.part'') f \<and> \<not> sublist (js ''.f'') f
                 \<and> \<not> suffix (js ''.mp4'') f \<and> \<not> suffix (js ''.mp3'') f) files"
    by (simp add: cachedFiles_of_def startsWith_prefix includes_sublist endsWith_suffix)
  have b: "cachedFiles_of title files
     = spec_candidates title (js ''mp3'') (spec_candidates title (js ''mp4'') files)"
    unfolding cachedFiles_of_def spec_candidates_def has_partial_marker_def dots filter_filter
    by (rule filter_cong) auto
  have c: "set (cachedFiles_of title files)
     = set (spec_candidates title (js ''mp4'') files) \<inter> set (spec_candidates title (js ''mp3'') files)"
    unfolding cachedFiles_of_def spec_candidates_def has_partial_marker_def dots
    by auto
  from a b c show ?thesis by blast
qed

theorem candidates_exclude_both_extensions_witness:
  "cachedFiles_of (js ''My_Clip'')
     [js ''My_Clip.webm'', js ''My_Clip.mp3'', js ''My_Clip.mp4'', js ''My_Clip.f137.webm'',
      js ''My_Clip.mkv.part'', js ''Other.webm'']
   = [js ''My_Clip.webm'']
   \<and> spec_candidates (js ''My_Clip'') (js ''mp3'') (spec_candidates (js ''My_Clip'') (js ''mp4'')
     [js ''My_Clip.webm'', js ''My_Clip.mp3'', js ''My_Clip.mp4'', js ''My_Clip.f137.webm'',
      js ''My_Clip.mkv.part'', js ''Other.webm''])
   = [js ''My_Clip.webm'']"
proof -
  have "cachedFiles_of (js ''My_Clip'')
     [js ''My_Clip.webm'', js ''My_Clip.mp3'', js ''My_Clip.mp4'', js ''My_Clip.f137.webm'',
      js ''My_Clip.mkv.part'', js ''Other.webm'']
   = [js ''My_Clip.webm'']"
    by (simp add: cachedFiles_of_def string_defs)
  with candidates_exclude_both_extensions [of "js ''My_Clip''"
     "[js ''My_Clip.webm'', js ''My_Clip.mp3'', js ''My_Clip.mp4'', js ''My_Clip.f137.webm'',
      js ''My_Clip.mkv.part'', js ''Other.webm'']", THEN conjunct2, THEN conjunct1]
  show ?thesis by simp
qed

section \<open>Locating the downloaded file\<close>

lemma statSync_listed:
  assumes "n \<in> set (readdirSync fs d)"
  shows "\<exists>st. statSync fs (path_join d n) = Some st"
proof -
  from assms have "n \<in> fst ` set (entries fs d)"
    by (simp add: readdirSync_def)
  then have "map_of (entries fs d) n \<noteq> None"
    by (simp add: map_of_eq_None_iff)
  then show ?thesis
    by (auto simp: statSync_def path_join_def)
qed

lemma downloadedFiles_listed:
  "f \<in> set (downloadedFiles_of base names) \<Longrightarrow> f \<in> set names"
  by (simp add: downloadedFiles_of_def)

lemma sortedFiles_Nil: "sortedFiles_of fs d candidates = [] \<longleftrightarrow> candidates = []"
proof -
  have "length (sortedFiles_of fs d candidates) = length candidates"
    by (simp add: sortedFiles_of_def)
  then show ?thesis
    by (metis length_0_conv)
qed

lemma sortedFiles_head:
  assumes "sortedFiles_of fs d candidates = newest # rest"
  shows "is_newest fs d candidates newest"
proof -
  let ?key = "\<lambda>a. - mtimeMs_at fs (path_join d a)"
  have mem: "set (newest # rest) = set candidates"
    using assms [symmetric] by (simp add: sortedFiles_of_def)
  have "sorted (map ?key (newest # rest))"
    using assms [symmetric] by (simp add: sortedFiles_of_def del: sorted_wrt.simps)
  then have "\<forall>g \<in> set (newest # rest). ?key newest \<le> ?key g"
    by auto
  then have "\<forall>g \<in> set candidates. mtimeMs_at fs (path_join d g) \<le> mtimeMs_at fs (path_join d newest)"
    unfolding mem by simp
  moreover have "newest \<in> set candidates"
    using mem by auto
  ultimately show ?thesis
    by (simp add: is_newest_def list_all_iff)
qed

text \<open>
  C7. After a successful download the file taken is the newest, by modification
  time, of the files in the kind's cache directory that start with the title and
  bear no partial marker. With no such file the call fails with the not-found
  error; with a newest file of size 0 it fails with the empty-file error; otherwise
  it returns the canonical path or the path of that newest file.
\<close>

theorem newest_download_is_located:
  assumes "download_video_fetch env url filename fileType
             (remove_partials (remove_extension filename) (targetDir_of fileType) fs)
           = (Inr (), fs1, tr)"
  shows "downloadedFiles_of (remove_extension filename) (readdirSync fs1 (targetDir_of fileType))
           = filter (\<lambda>f. prefix (remove_extension filename) f \<and> \<not> sublist (js ''.part'') f
                       \<and> \<not> sublist (js ''.f'') f) (readdirSync fs1 (targetDir_of fileType))
     \<and> (downloadedFiles_of (remove_extension filename) (readdirSync fs1 (targetDir_of fileType)) = []
          \<longrightarrow> download_video_acquire env url filename fileType fs
                = (Inl (File_not_created (remove_extension filename)), fs1, tr))
     \<and> (downloadedFiles_of (remove_extension filename) (readdirSync fs1 (targetDir_of fileType)) \<noteq> []
          \<longrightarrow> (\<exists>newest st.
                 is_newest fs1 (targetDir_of fileType)
                   (downloadedFiles_of (remove_extension filename)
                      (readdirSync fs1 (targetDir_of fileType))) newest
                 \<and> statSync fs1 (path_join (targetDir_of fileType) newest) = Some st
                 \<and> (st_size st = 0
                      \<longrightarrow> download_video_acquire env url filename fileType fs
                            = (Inl Downloaded_file_is_empty, fs1, tr))
                 \<and> (0 < st_size st
                      \<longrightarrow> fst (download_video_acquire env url filename fileType fs)
                              = Inr (filePath_of filename fileType)
                          \<or> fst (download_video_acquire env url filename fileType fs)
                              = Inr (path_join (targetDir_of fileType) newest))))"
proof -
  let ?base = "remove_extension filename"
  let ?dir = "targetDir_of fileType"
  let ?c = "downloadedFiles_of ?base (readdirSync fs1 ?dir)"
  have acq: "download_video_acquire env url filename fileType fs
      = (case download_video_finish env filename fileType fs1 of (r, fs'', tr') \<Rightarrow> (r, fs'', tr @ tr'))"
    by (simp add: download_video_acquire_def assms)
  have words: "?c = filter (\<lambda>f. prefix ?base f \<and> \<not> sublist (js ''.part'') f
                       \<and> \<not> sublist (js ''.f'') f) (readdirSync fs1 ?dir)"
    by (simp add: downloadedFiles_of_def startsWith_prefix includes_sublist)
  have none: "download_video_acquire env url filename fileType fs
                = (Inl (File_not_created ?base), fs1, tr)" if "?c = []"
    using that by (simp add: acq download_video_finish_def sortedFiles_of_def)
  have some: "\<exists>newest st.
                 is_newest fs1 ?dir ?c newest
                 \<and> statSync fs1 (path_join ?dir newest) = Some st
                 \<and> (st_size st = 0
                      \<longrightarrow> download_video_acquire env url filename fileType fs
                            = (Inl Downloaded_file_is_empty, fs1, tr))
                 \<and> (0 < st_size st
                      \<longrightarrow> fst (download_video_acquire env url filename fileType fs)
                              = Inr (filePath_of filename fileType)
                          \<or> fst (download_video_acquire env url filename fileType fs)
                              = Inr (path_join ?dir newest))" if "?c \<noteq> []"
  proof -
    from that obtain newest rest where sorted: "sortedFiles_of fs1 ?dir ?c = newest # rest"
      by (metis sortedFiles_Nil list.exhaust)
    then have newest: "is_newest fs1 ?dir ?c newest"
      by (rule sortedFiles_head)
    then have "newest \<in> set (readdirSync fs1 ?dir)"
      by (auto simp: is_newest_def dest: downloadedFiles_listed)
    then obtain st where st: "statSync fs1 (path_join ?dir newest) = Some st"
      using statSync_listed by blast
    have zero: "download_video_acquire env url filename fileType fs
                  = (Inl Downloaded_file_is_empty, fs1, tr)" if "st_size st = 0"
      using that by (simp add: acq download_video_finish_def sorted st)
    have pos: "fst (download_video_acquire env url filename fileType fs)
                  = Inr (filePath_of filename fileType)
               \<or> fst (download_video_acquire env url filename fileType fs)
                  = Inr (path_join ?dir newest)" if "0 < st_size st"
      using that
      by (simp add: acq download_video_finish_def sorted st Let_def
          split: prod.splits sum.splits)
    show ?thesis
    proof (intro exI conjI impI)
      show "is_newest fs1 ?dir ?c newest" by (rule newest)
      show "statSync fs1 (path_join ?dir newest) = Some st" by (rule st)
      show "download_video_acquire env url filename fileType fs
              = (Inl Downloaded_file_is_empty, fs1, tr)" if "st_size st = 0"
        using that by (rule zero)
      show "fst (download_video_acquire env url filename fileType fs)
              = Inr (filePath_of filename fileType)
            \<or> fst (download_video_acquire env url filename fileType fs)
              = Inr (path_join ?dir newest)" if "0 < st_size st"
        using that by (rule pos)
    qed
  qed
  from words none some show ?thesis
    by blast
qed
theorem newest_download_is_located_witness:
  "download_video_fetch (example_env False ffmpeg_fails webm_download) example_url (js ''My_Clip'')
       (js ''mp4'') (remove_partials (remove_extension (js ''My_Clip'')) (targetDir_of (js ''mp4'')) mkv_cache)
     = (Inr (), mkv_webm_cache,
        [Ytdlp_download example_url (js ''b[height<=?720]'') (TEMP_DIR_MP4, js ''My_Clip'')])
   \<and> downloadedFiles_of (remove_extension (js ''My_Clip''))
         (readdirSync mkv_webm_cache (targetDir_of (js ''mp4'')))
     = [js ''My_Clip.mkv'', js ''My_Clip.webm'']
   \<and> (\<exists>newest st.
         is_newest mkv_webm_cache (targetDir_of (js ''mp4''))
           (downloadedFiles_of (remove_extension (js ''My_Clip''))
              (readdirSync mkv_webm_cache (targetDir_of (js ''mp4'')))) newest
         \<and> statSync mkv_webm_cache (path_join (targetDir_of (js ''mp4'')) newest) = Some st
         \<and> (st_size st = 0
              \<longrightarrow> download_video_acquire (example_env False ffmpeg_fails webm_download) example_url
                    (js ''My_Clip'') (js ''mp4'') mkv_cache
                    = (Inl Downloaded_file_is_empty, mkv_webm_cache,
                       [Ytdlp_download example_url (js ''b[height<=?720]'') (TEMP_DIR_MP4, js ''My_Clip'')]))
         \<and> (0 < st_size st
              \<longrightarrow> fst (download_video_acquire (example_env False ffmpeg_fails webm_download) example_url
                         (js ''My_Clip'') (js ''mp4'') mkv_cache)
                      = Inr (filePath_of (js ''My_Clip'') (js ''mp4''))
                  \<or> fst (download_video_acquire (example_env False ffmpeg_fails webm_download) example_url
                         (js ''My_Clip'') (js ''mp4'') mkv_cache)
                      = Inr (path_join (targetDir_of (js ''mp4'')) newest)))
   \<and> fst (download_video_acquire (example_env False ffmpeg_fails webm_download) example_url
           (js ''My_Clip'') (js ''mp4'') mkv_cache)
     = Inr (TEMP_DIR_MP4, js ''My_Clip.webm'')"
proof -
  have fetch: "download_video_fetch (example_env False ffmpeg_fails webm_download) example_url (js ''My_Clip'')
       (js ''mp4'') (remove_partials (remove_extension (js ''My_Clip'')) (targetDir_of (js ''mp4'')) mkv_cache)
     = (Inr (), mkv_webm_cache,
        [Ytdlp_download example_url (js ''b[height<=?720]'') (TEMP_DIR_MP4, js ''My_Clip'')])"
    by (simp add: string_defs fs_defs pipeline_defs example_defs mkv_cache_def mkv_webm_cache_def)
  have listed: "downloadedFiles_of (remove_extension (js ''My_Clip''))
         (readdirSync mkv_webm_cache (targetDir_of (js ''mp4'')))
     = [js ''My_Clip.mkv'', js ''My_Clip.webm'']"
    by (simp add: string_defs fs_defs pipeline_defs mkv_webm_cache_def)
  have result: "fst (download_video_acquire (example_env False ffmpeg_fails webm_download) example_url
           (js ''My_Clip'') (js ''mp4'') mkv_cache)
     = Inr (TEMP_DIR_MP4, js ''My_Clip.webm'')"
    by (simp add: string_defs fs_defs pipeline_defs example_defs mkv_cache_def)
  have nonempty: "downloadedFiles_of (remove_extension (js ''My_Clip''))
         (readdirSync mkv_webm_cache (targetDir_of (js ''mp4''))) \<noteq> []"
    by (simp only: listed) simp
  from newest_download_is_located [OF fetch, THEN conjunct2, THEN conjunct2] nonempty
  have "\<exists>newest st.
         is_newest mkv_webm_cache (targetDir_of (js ''mp4''))
           (downloadedFiles_of (remove_extension (js ''My_Clip''))
              (readdirSync mkv_webm_cache (targetDir_of (js ''mp4'')))) newest
         \<and> statSync mkv_webm_cache (path_join (targetDir_of (js ''mp4'')) newest) = Some st
         \<and> (st_size st = 0
              \<longrightarrow> download_video_acquire (example_env False ffmpeg_fails webm_download) example_url
                    (js ''My_Clip'') (js ''mp4'') mkv_cache
                    = (Inl Downloaded_file_is_empty, mkv_webm_cache,
                       [Ytdlp_download example_url (js ''b[height<=?720]'') (TEMP_DIR_MP4, js ''My_Clip'')]))
         \<and> (0 < st_size st
              \<longrightarrow> fst (download_video_acquire (example_env False ffmpeg_fails webm_download) example_url
                         (js ''My_Clip'') (js ''mp4'') mkv_cache)
                      = Inr (filePath_of (js ''My_Clip'') (js ''mp4''))
                  \<or> fst (download_video_acquire (example_env False ffmpeg_fails webm_download) example_url
                         (js ''My_Clip'') (js ''mp4'') mkv_cache)
                      = Inr (path_join (targetDir_of (js ''mp4'')) newest))"
    by (rule mp)
  with fetch listed result show ?thesis
    by (intro conjI)
qed

section \<open>The cache check\<close>



lemma statSync_unlinkSync_same: "statSync (unlinkSync fs p) p = None"
proof -
  have "snd p \<notin> fst ` set (filter (\<lambda>e. fst e \<noteq> snd p) (entries fs (fst p)))"
    by auto
  then show ?thesis
    by (simp add: statSync_def unlinkSync_def entries_set_entries map_of_eq_None_iff del: set_filter)
qed






section \<open>A cached original\<close>












section \<open>A download that already has the target extension\<close>


lemma statSync_put_file: "statSync (put_file fs p st) p = Some st"
proof -
  have "map_of (filter (\<lambda>e. fst e \<noteq> snd p) (entries fs (fst p))) (snd p) = None"
    by (auto simp: map_of_eq_None_iff)
  then show ?thesis
    by (simp add: statSync_def put_file_def Let_def entries_set_entries unlinkSync_def
        map_add_def del: set_filter)
qed

lemma statSync_renameSync:
  "statSync fs old = Some st \<Longrightarrow> statSync (renameSync fs old new) new = Some st"
  by (simp add: renameSync_def statSync_put_file)




section \<open>Calling twice\<close>

lemma cachedFiles_listed:
  "f \<in> set (cachedFiles_of base names) \<Longrightarrow> f \<in> set names"
  by (simp add: cachedFiles_of_def)

lemma finish_returns_canonical:
  assumes "\<not> ffmpegAvailable env"
    and "download_video_finish env filename fileType fs = (Inr (filePath_of filename fileType), fs', tr)"
  shows "\<exists>st. statSync fs' (filePath_of filename fileType) = Some st \<and> 0 < st_size st"
  using assms
  by (auto simp: download_video_finish_def Let_def statSync_renameSync
      split: list.splits option.splits if_splits)

lemma acquire_returns_canonical:
  assumes "\<not> ffmpegAvailable env"
    and "download_video_acquire env url filename fileType fs = (Inr (filePath_of filename fileType), fs', tr)"
  shows "\<exists>st. statSync fs' (filePath_of filename fileType) = Some st \<and> 0 < st_size st"
proof -
  obtain r fs1 tr1 where fetch: "download_video_fetch env url filename fileType
      (remove_partials (remove_extension filename) (targetDir_of fileType) fs) = (r, fs1, tr1)"
    by (metis prod_cases3)
  obtain r2 fs2 tr2 where finish: "download_video_finish env filename fileType fs1 = (r2, fs2, tr2)"
    by (metis prod_cases3)
  from assms(2) fetch finish have "r2 = Inr (filePath_of filename fileType)" "fs2 = fs'"
    by (auto simp: download_video_acquire_def split: sum.splits)
  with finish assms(1) show ?thesis
    using finish_returns_canonical by blast
qed

lemma original_returns_canonical:
  assumes "\<not> ffmpegAvailable env"
    and "statSync fs (filePath_of filename fileType) = None"
    and "download_video_original env url filename fileType fs = (Inr (filePath_of filename fileType), fs', tr)"
  shows "\<exists>st. statSync fs' (filePath_of filename fileType) = Some st \<and> 0 < st_size st"
proof (cases "cachedFiles_of (remove_extension filename) (readdirSync fs (targetDir_of fileType))")
  case Nil
  with assms(3) have "download_video_acquire env url filename fileType fs
      = (Inr (filePath_of filename fileType), fs', tr)"
    by (simp add: download_video_original_def)
  with assms(1) show ?thesis
    by (rule acquire_returns_canonical)
next
  case (Cons first others)
  then have "first \<in> set (readdirSync fs (targetDir_of fileType))"
    by (metis cachedFiles_listed list.set_intros(1))
  then obtain st where st: "statSync fs (path_join (targetDir_of fileType) first) = Some st"
    using statSync_listed by blast
  with assms(2) have differ: "path_join (targetDir_of fileType) first \<noteq> filePath_of filename fileType"
    by auto
  show ?thesis
  proof (cases "0 < st_size st")
    case True
    with assms(1,3) Cons st differ show ?thesis
      by (simp add: download_video_original_def)
  next
    case False
    with assms(3) Cons st have "download_video_acquire env url filename fileType
        (unlinkSync fs (path_join (targetDir_of fileType) first))
      = (Inr (filePath_of filename fileType), fs', tr)"
      by (simp add: download_video_original_def)
    with assms(1) show ?thesis
      by (rule acquire_returns_canonical)
  qed
qed

lemma download_video_returns_canonical:
  assumes "\<not> ffmpegAvailable env"
    and "download_video env url filename fileType fs = (Inr (filePath_of filename fileType), fs', tr)"
  shows "\<exists>st. statSync fs' (filePath_of filename fileType) = Some st \<and> 0 < st_size st"
proof (cases "statSync fs (filePath_of filename fileType)")
  case None
  with assms(2) have "download_video_original env url filename fileType fs
      = (Inr (filePath_of filename fileType), fs', tr)"
    by (simp add: download_video_def)
  with assms(1) None show ?thesis
    by (rule original_returns_canonical)
next
  case (Some st)
  show ?thesis
  proof (cases "0 < st_size st")
    case True
    with assms(2) Some show ?thesis
      by (simp add: download_video_def)
  next
    case False
    with assms(2) Some have "download_video_original env url filename fileType
        (unlinkSync fs (filePath_of filename fileType))
      = (Inr (filePath_of filename fileType), fs', tr)"
      by (simp add: download_video_def)
    with assms(1) statSync_unlinkSync_same show ?thesis
      by (rule original_returns_canonical)
  qed
qed

text \<open>
  C1 as the specification states it: after a first call that returns a path, a second
  call with the same arguments returns the same path and downloads nothing. Two
  runs of the source against it. In the first, an audio request downloads
  \<open>My_Clip.mp4\<close>, the conversion fails and the call falls back to that file; the scan
  of the second call leaves a name that ends with \<open>.mp4\<close> out and downloads again.
  In the second, without a transcoder, the directory holds an empty file
  \<open>My_Clip-2.webm\<close> and a non-empty file \<open>My_Clip-3.webm\<close> of two other titles; the
  first call deletes the empty one, downloads and returns the newest file,
  \<open>My_Clip.webm\<close>; the second call returns the first name of the listing that
  passes the scan, \<open>My_Clip-3.webm\<close>, which the byte order puts before
  \<open>My_Clip.webm\<close>.
\<close>

theorem second_call_differs:
  "fst (download_video (example_env True ffmpeg_fails mp4_download) example_url (js ''My_Clip'')
         (js ''mp3'') empty_cache)
     = Inr (TEMP_DIR_MP3, js ''My_Clip.mp4'')
   \<and> list_ex is_download (snd (snd (download_video (example_env True ffmpeg_fails mp4_download)
         example_url (js ''My_Clip'') (js ''mp3'')
         (fst (snd (download_video (example_env True ffmpeg_fails mp4_download) example_url
            (js ''My_Clip'') (js ''mp3'') empty_cache))))))
   \<and> fst (download_video (example_env False ffmpeg_fails webm_download) example_url (js ''My_Clip'')
         (js ''mp4'') shared_prefix_cache)
     = Inr (TEMP_DIR_MP4, js ''My_Clip.webm'')
   \<and> fst (download_video (example_env False ffmpeg_fails webm_download) example_url (js ''My_Clip'')
         (js ''mp4'')
         (fst (snd (download_video (example_env False ffmpeg_fails webm_download) example_url
            (js ''My_Clip'') (js ''mp4'') shared_prefix_cache))))
     = Inr (TEMP_DIR_MP4, js ''My_Clip-3.webm'')"
proof -
  have first_audio: "download_video (example_env True ffmpeg_fails mp4_download) example_url
      (js ''My_Clip'') (js ''mp3'') empty_cache
    = (Inr (TEMP_DIR_MP3, js ''My_Clip.mp4''),
       \<lparr>temp_mp4 = [], temp_mp3 = [(js ''My_Clip.mp4'', \<lparr>st_size = 7, st_mtimeMs = 100\<rparr>)]\<rparr>,
       snd (snd (download_video (example_env True ffmpeg_fails mp4_download) example_url
         (js ''My_Clip'') (js ''mp3'') empty_cache)))"
    by (simp add: string_defs fs_defs pipeline_defs example_defs)
  have second_audio: "list_ex is_download (snd (snd (download_video
      (example_env True ffmpeg_fails mp4_download) example_url (js ''My_Clip'') (js ''mp3'')
      \<lparr>temp_mp4 = [], temp_mp3 = [(js ''My_Clip.mp4'', \<lparr>st_size = 7, st_mtimeMs = 100\<rparr>)]\<rparr>)))"
    by (simp add: string_defs fs_defs pipeline_defs example_defs)
  have first_video: "download_video (example_env False ffmpeg_fails webm_download) example_url
      (js ''My_Clip'') (js ''mp4'') shared_prefix_cache
    = (Inr (TEMP_DIR_MP4, js ''My_Clip.webm''),
       \<lparr>temp_mp4 = [(js ''My_Clip-3.webm'', \<lparr>st_size = 5, st_mtimeMs = 2\<rparr>),
                    (js ''My_Clip.webm'', \<lparr>st_size = 7, st_mtimeMs = 100\<rparr>)], temp_mp3 = []\<rparr>,
       [Ytdlp_download example_url (js ''b[height<=?720]'') (TEMP_DIR_MP4, js ''My_Clip'')])"
    by (simp add: string_defs fs_defs pipeline_defs example_defs shared_prefix_cache_def)
  have second_video: "fst (download_video (example_env False ffmpeg_fails webm_download) example_url
      (js ''My_Clip'') (js ''mp4'')
      \<lparr>temp_mp4 = [(js ''My_Clip-3.webm'', \<lparr>st_size = 5, st_mtimeMs = 2\<rparr>),
                    (js ''My_Clip.webm'', \<lparr>st_size = 7, st_mtimeMs = 100\<rparr>)], temp_mp3 = []\<rparr>)
    = Inr (TEMP_DIR_MP4, js ''My_Clip-3.webm'')"
    by (simp add: string_defs fs_defs pipeline_defs example_defs)
  have a: "fst (download_video (example_env True ffmpeg_fails mp4_download) example_url (js ''My_Clip'')
         (js ''mp3'') empty_cache) = Inr (TEMP_DIR_MP3, js ''My_Clip.mp4'')"
    by (subst first_audio) simp
  have b: "fst (snd (download_video (example_env True ffmpeg_fails mp4_download) example_url
         (js ''My_Clip'') (js ''mp3'') empty_cache))
     = \<lparr>temp_mp4 = [], temp_mp3 = [(js ''My_Clip.mp4'', \<lparr>st_size = 7, st_mtimeMs = 100\<rparr>)]\<rparr>"
    by (subst first_audio) simp
  show ?thesis
    unfolding b using a second_audio second_video by (simp add: first_video)
qed

text \<open>
  C1, amended. When a first call returns the canonical path \<open>P\<close> and \<open>P\<close> then holds a
  file of positive size, which is always so when the transcoder is not available, a
  second call with the same arguments on the state that the first call left returns
  \<open>P\<close> again, runs neither the downloader nor the transcoder, and leaves the state
  as it is.
\<close>

theorem second_call_hits_cache:
  assumes "download_video env url filename fileType fs = (Inr (filePath_of filename fileType), fs1, tr1)"
    and "ffmpegAvailable env
         \<longrightarrow> (\<exists>st. statSync fs1 (filePath_of filename fileType) = Some st \<and> 0 < st_size st)"
  shows "download_video env url filename fileType fs1 = (Inr (filePath_of filename fileType), fs1, [])"
proof -
  have "\<exists>st. statSync fs1 (filePath_of filename fileType) = Some st \<and> 0 < st_size st"
  proof (cases "ffmpegAvailable env")
    case True
    with assms(2) show ?thesis by blast
  next
    case False
    from False assms(1) show ?thesis
      by (rule download_video_returns_canonical)
  qed
  then show ?thesis
    by (auto simp: download_video_def)
qed

theorem second_call_hits_cache_witness:
  "fst (download_video (example_env True ffmpeg_ok webm_download) example_url (js ''My_Clip'')
         (js ''mp4'') empty_cache)
     = Inr (filePath_of (js ''My_Clip'') (js ''mp4''))
   \<and> filePath_of (js ''My_Clip'') (js ''mp4'') = (TEMP_DIR_MP4, js ''My_Clip.mp4'')
   \<and> fst (snd (download_video (example_env True ffmpeg_ok webm_download) example_url (js ''My_Clip'')
         (js ''mp4'') empty_cache))
     = \<lparr>temp_mp4 = [(js ''My_Clip.webm'', \<lparr>st_size = 7, st_mtimeMs = 100\<rparr>),
                   (js ''My_Clip.mp4'', \<lparr>st_size = 4, st_mtimeMs = 200\<rparr>)], temp_mp3 = []\<rparr>
   \<and> download_video (example_env True ffmpeg_ok webm_download) example_url (js ''My_Clip'') (js ''mp4'')
         (fst (snd (download_video (example_env True ffmpeg_ok webm_download) example_url (js ''My_Clip'')
            (js ''mp4'') empty_cache)))
     = (Inr (filePath_of (js ''My_Clip'') (js ''mp4'')),
        fst (snd (download_video (example_env True ffmpeg_ok webm_download) example_url (js ''My_Clip'')
            (js ''mp4'') empty_cache)), [])"
proof -
  let ?run = "download_video (example_env True ffmpeg_ok webm_download) example_url (js ''My_Clip'')
         (js ''mp4'') empty_cache"
  have canonical: "filePath_of (js ''My_Clip'') (js ''mp4'') = (TEMP_DIR_MP4, js ''My_Clip.mp4'')"
    by (simp add: string_defs fs_defs pipeline_defs)
  have returned: "fst ?run = Inr (filePath_of (js ''My_Clip'') (js ''mp4''))"
    by (simp add: string_defs fs_defs pipeline_defs example_defs)
  have state: "fst (snd ?run)
     = \<lparr>temp_mp4 = [(js ''My_Clip.webm'', \<lparr>st_size = 7, st_mtimeMs = 100\<rparr>),
                   (js ''My_Clip.mp4'', \<lparr>st_size = 4, st_mtimeMs = 200\<rparr>)], temp_mp3 = []\<rparr>"
    by (simp add: string_defs fs_defs pipeline_defs example_defs)
  have first: "?run = (Inr (filePath_of (js ''My_Clip'') (js ''mp4'')), fst (snd ?run), snd (snd ?run))"
    using returned by (metis prod.collapse)
  have held: "ffmpegAvailable (example_env True ffmpeg_ok webm_download)
      \<longrightarrow> (\<exists>st. statSync (fst (snd ?run)) (filePath_of (js ''My_Clip'') (js ''mp4'')) = Some st
                \<and> 0 < st_size st)"
    unfolding state canonical by (simp add: string_defs fs_defs)
  from second_call_hits_cache [OF first held] canonical returned state show ?thesis
    by (intro conjI)
qed

section \<open>How many completed files a call can add\<close>

lemma completed_unlinkSync:
  "length (completed_files title d (unlinkSync fs p)) \<le> length (completed_files title d fs)"
proof (cases p)
  case (Pair d' n)
  show ?thesis
  proof (cases "d = d'")
    case True
    have "length (filter (\<lambda>e. fst e \<noteq> n) (completed_files title d fs))
        \<le> length (completed_files title d fs)"
      by (rule length_filter_le)
    moreover have "completed_files title d (unlinkSync fs (d', n))
        = filter (\<lambda>e. fst e \<noteq> n) (completed_files title d fs)"
      using True by (simp add: completed_files_def unlinkSync_entries conj_commute)
    ultimately show ?thesis
      using Pair by simp
  next
    case False
    then show ?thesis
      using Pair by (simp add: completed_files_def unlinkSync_entries)
  qed
qed

lemma completed_unlinkSync_found:
  assumes "statSync fs (path_join d n) = Some st"
    and "0 < st_size st"
    and "startsWith n title"
    and "\<not> includes_js n (js ''.part'')"
    and "\<not> includes_js n (js ''.f'')"
  shows "Suc (length (completed_files title d (unlinkSync fs (path_join d n))))
       \<le> length (completed_files title d fs)"
proof -
  from assms(1) have "(n, st) \<in> set (entries fs d)"
    by (simp add: statSync_def path_join_def map_of_SomeD)
  with assms(2-5) have "(n, st) \<in> set (completed_files title d fs)"
    by (simp add: completed_files_def)
  then have "length (filter (\<lambda>e. fst e \<noteq> n) (completed_files title d fs))
      < length (completed_files title d fs)"
    by (intro length_filter_less [of "(n, st)"]) simp_all
  moreover have "completed_files title d (unlinkSync fs (path_join d n))
      = filter (\<lambda>e. fst e \<noteq> n) (completed_files title d fs)"
    by (simp add: completed_files_def unlinkSync_entries path_join_def conj_commute)
  ultimately show ?thesis
    by simp
qed

lemma completed_put_file:
  "length (completed_files title d (put_file fs p st)) \<le> Suc (length (completed_files title d fs))"
proof -
  have "length (completed_files title d (put_file fs p st))
      \<le> Suc (length (completed_files title d (unlinkSync fs p)))"
    by (cases p) (simp add: completed_files_def put_file_def Let_def entries_set_entries)
  also have "\<dots> \<le> Suc (length (completed_files title d fs))"
    using completed_unlinkSync by simp
  finally show ?thesis .
qed

lemma completed_renameSync:
  assumes "statSync fs (path_join d n) = Some st"
    and "0 < st_size st"
    and "startsWith n title"
    and "\<not> includes_js n (js ''.part'')"
    and "\<not> includes_js n (js ''.f'')"
  shows "length (completed_files title d (renameSync fs (path_join d n) new))
       \<le> length (completed_files title d fs)"
proof -
  have "length (completed_files title d (renameSync fs (path_join d n) new))
      \<le> Suc (length (completed_files title d (unlinkSync fs (path_join d n))))"
    using assms(1) by (simp add: renameSync_def completed_put_file)
  also have "\<dots> \<le> length (completed_files title d fs)"
    using assms by (rule completed_unlinkSync_found)
  finally show ?thesis .
qed

lemma completed_remove_partials:
  "length (completed_files title d (remove_partials base d' fs)) \<le> length (completed_files title d fs)"
proof -
  have "length (completed_files title d
          (fold (\<lambda>f fs'. let partialPath = path_join d' f
                         in if existsSync fs' partialPath then unlinkSync fs' partialPath else fs')
             names fs))
      \<le> length (completed_files title d fs)" for names
  proof (induction names arbitrary: fs)
    case Nil
    show ?case by simp
  next
    case (Cons f names)
    let ?step = "if existsSync fs (path_join d' f) then unlinkSync fs (path_join d' f) else fs"
    have "length (completed_files title d ?step) \<le> length (completed_files title d fs)"
      by (simp add: completed_unlinkSync)
    with Cons.IH [of ?step] show ?case
      by (simp add: Let_def)
  qed
  then show ?thesis
    by (simp add: remove_partials_def)
qed

lemma tool_runs_append: "tool_runs (tr @ tr') = tool_runs tr + tool_runs tr'"
  by (simp add: tool_runs_def)

lemma convert_adds_one:
  assumes "\<forall>args s. length (completed_files title d (snd (spawn_ffmpeg env args s)))
                      \<le> Suc (length (completed_files title d s))"
    and "convert env fileType input output fs = (r, fs', tr)"
  shows "length (completed_files title d fs') \<le> Suc (length (completed_files title d fs))
       \<and> tool_runs tr = 1"
proof -
  obtain args where run: "run_ffmpeg env args output fs = (r, fs', tr)"
    using assms(2) by (auto simp: convert_def convertToMp3_def convertToMp4_def split: if_splits)
  then have state: "fs' = snd (spawn_ffmpeg env args fs)" and trace: "tr = [Ffmpeg_run args]"
    by (auto simp: run_ffmpeg_def split: prod.splits proc_result.splits)
  from assms(1) have "length (completed_files title d (snd (spawn_ffmpeg env args fs)))
      \<le> Suc (length (completed_files title d fs))"
    by blast
  then have "length (completed_files title d fs') \<le> Suc (length (completed_files title d fs))"
    by (simp only: state)
  moreover have "tool_runs tr = 1"
    by (simp add: trace tool_runs_def)
  ultimately show ?thesis
    by (intro conjI)
qed

lemma fetch_adds_one:
  assumes "\<forall>u f out s. length (completed_files title d (snd (ytdlp_downloadAsync env u f out s)))
                         \<le> Suc (length (completed_files title d s))"
    and "download_video_fetch env url filename fileType fs = (r, fs', tr)"
  shows "length (completed_files title d fs') \<le> Suc (length (completed_files title d fs))
       \<and> tool_runs tr = 1"
proof -
  let ?format = "if ffmpegAvailable env then js ''bv[height<=?720]+ba/b[height<=?720]''
                 else js ''b[height<=?720]''"
  let ?output = "path_join (targetDir_of fileType) (remove_extension filename)"
  from assms(2) have state: "fs' = snd (ytdlp_downloadAsync env (trim url) ?format ?output fs)"
    and runs: "tool_runs tr = 1"
    by (auto simp: download_video_fetch_def Let_def tool_runs_def split: prod.splits option.splits)
  from assms(1) have "length (completed_files title d (snd (ytdlp_downloadAsync env (trim url) ?format ?output fs)))
      \<le> Suc (length (completed_files title d fs))"
    by blast
  then have "length (completed_files title d fs') \<le> Suc (length (completed_files title d fs))"
    by (simp only: state)
  with runs show ?thesis
    by (intro conjI)
qed
lemma tool_runs_Nil: "tool_runs [] = 0"
  by (simp add: tool_runs_def)

lemma tool_runs_console: "tool_runs (tr @ [Console_error c]) = tool_runs tr"
  by (simp add: tool_runs_def)

lemma convert_bound:
  assumes "tools_add_one env title d"
    and "convert env fileType input output fs = (r, fs', tr)"
  shows "length (completed_files title d fs') \<le> Suc (length (completed_files title d fs))"
    and "tool_runs tr = 1"
  using convert_adds_one [OF _ assms(2), of title d] assms(1)
  by (simp_all add: tools_add_one_def)

lemma fetch_bound:
  assumes "tools_add_one env title d"
    and "download_video_fetch env url filename fileType fs = (r, fs', tr)"
  shows "length (completed_files title d fs') \<le> Suc (length (completed_files title d fs))"
    and "tool_runs tr = 1"
  using fetch_adds_one [OF _ assms(2), of title d] assms(1)
  by (simp_all add: tools_add_one_def)

lemma finish_bound:
  assumes "tools_add_one env (remove_extension filename) (targetDir_of fileType)"
    and "download_video_finish env filename fileType fs = (r, fs', tr)"
  shows "length (completed_files (remove_extension filename) (targetDir_of fileType) fs')
           \<le> length (completed_files (remove_extension filename) (targetDir_of fileType) fs)
              + tool_runs tr
       \<and> tool_runs tr \<le> 1"
proof -
  let ?base = "remove_extension filename"
  let ?dir = "targetDir_of fileType"
  let ?P = "filePath_of filename fileType"
  let ?count = "\<lambda>s. length (completed_files ?base ?dir s)"
  have same: ?thesis if "fs' = fs" "tr = []"
    using that by (simp add: tool_runs_Nil)
  show ?thesis
  proof (cases "sortedFiles_of fs ?dir (downloadedFiles_of ?base (readdirSync fs ?dir))")
    case Nil
    with assms(2) show ?thesis
      by (intro same) (simp_all add: download_video_finish_def)
  next
    case (Cons newest rest)
    let ?D = "path_join ?dir newest"
    have "newest \<in> set (sortedFiles_of fs ?dir (downloadedFiles_of ?base (readdirSync fs ?dir)))"
      using Cons by simp
    then have name: "startsWith newest ?base" "\<not> includes_js newest (js ''.part'')"
      "\<not> includes_js newest (js ''.f'')"
      by (simp_all add: sortedFiles_of_def downloadedFiles_of_def)
    show ?thesis
    proof (cases "statSync fs ?D")
      case None
      with assms(2) Cons show ?thesis
        by (intro same) (simp_all add: download_video_finish_def)
    next
      case (Some stats)
      show ?thesis
      proof (cases "st_size stats = 0")
        case True
        with assms(2) Cons Some show ?thesis
          by (intro same) (simp_all add: download_video_finish_def)
      next
        case False
        then have positive: "0 < st_size stats"
          by simp
        show ?thesis
        proof (cases "ffmpegAvailable env")
          case True
          obtain r0 fs0 tr0 where conv: "convert env fileType ?D ?P fs = (r0, fs0, tr0)"
            by (metis prod_cases3)
          from assms(2) Cons Some False True conv
          have "fs' = fs0" "tool_runs tr = tool_runs tr0"
            by (auto simp: download_video_finish_def Let_def tool_runs_console split: sum.splits)
          with convert_bound [OF assms(1) conv] show ?thesis
            by simp
        next
          case unavailable: False
          show ?thesis
          proof (cases "fs' = fs")
            case True
            with assms(2) Cons Some False unavailable show ?thesis
              by (intro same) (auto simp: download_video_finish_def Let_def split: if_splits)
          next
            case moved: False
            with assms(2) Cons Some False unavailable
            have "fs' = renameSync fs ?D ?P" "tr = []"
              by (auto simp: download_video_finish_def Let_def split: if_splits)
            moreover have "?count (renameSync fs ?D ?P) \<le> ?count fs"
              using Some positive name by (rule completed_renameSync)
            ultimately show ?thesis
              by (simp add: tool_runs_Nil)
          qed
        qed
      qed
    qed
  qed
qed

lemma acquire_bound:
  assumes "tools_add_one env (remove_extension filename) (targetDir_of fileType)"
    and "download_video_acquire env url filename fileType fs = (r, fs', tr)"
  shows "length (completed_files (remove_extension filename) (targetDir_of fileType) fs')
           \<le> length (completed_files (remove_extension filename) (targetDir_of fileType) fs)
              + tool_runs tr
       \<and> tool_runs tr \<le> 2"
proof -
  let ?base = "remove_extension filename"
  let ?dir = "targetDir_of fileType"
  let ?count = "\<lambda>s. length (completed_files ?base ?dir s)"
  let ?fs0 = "remove_partials ?base ?dir fs"
  obtain r1 fs1 tr1 where fetch: "download_video_fetch env url filename fileType ?fs0 = (r1, fs1, tr1)"
    by (metis prod_cases3)
  have clean: "?count ?fs0 \<le> ?count fs"
    by (rule completed_remove_partials)
  have fetched: "?count fs1 \<le> Suc (?count ?fs0)" "tool_runs tr1 = 1"
    using fetch_bound [OF assms(1) fetch] by simp_all
  show ?thesis
  proof (cases r1)
    case (Inl e)
    with assms(2) fetch have "fs' = fs1" "tr = tr1"
      by (simp_all add: download_video_acquire_def)
    with clean fetched show ?thesis
      by simp
  next
    case (Inr u)
    obtain r2 fs2 tr2 where finish: "download_video_finish env filename fileType fs1 = (r2, fs2, tr2)"
      by (metis prod_cases3)
    with assms(2) fetch Inr have "fs' = fs2" "tr = tr1 @ tr2"
      by (simp_all add: download_video_acquire_def)
    with clean fetched finish_bound [OF assms(1) finish] show ?thesis
      by (simp add: tool_runs_append)
  qed
qed

lemma original_bound:
  assumes "tools_add_one env (remove_extension filename) (targetDir_of fileType)"
    and "download_video_original env url filename fileType fs = (r, fs', tr)"
  shows "length (completed_files (remove_extension filename) (targetDir_of fileType) fs')
           \<le> length (completed_files (remove_extension filename) (targetDir_of fileType) fs)
              + tool_runs tr
       \<and> tool_runs tr \<le> 2"
proof -
  let ?base = "remove_extension filename"
  let ?dir = "targetDir_of fileType"
  let ?P = "filePath_of filename fileType"
  let ?count = "\<lambda>s. length (completed_files ?base ?dir s)"
  show ?thesis
  proof (cases "cachedFiles_of ?base (readdirSync fs ?dir)")
    case Nil
    with assms(2) have "download_video_acquire env url filename fileType fs = (r, fs', tr)"
      by (simp add: download_video_original_def)
    with assms(1) show ?thesis
      by (rule acquire_bound)
  next
    case (Cons first others)
    let ?O = "path_join ?dir first"
    show ?thesis
    proof (cases "statSync fs ?O")
      case None
      with assms(2) Cons show ?thesis
        by (simp add: download_video_original_def tool_runs_Nil)
    next
      case (Some stats)
      show ?thesis
      proof (cases "0 < st_size stats")
        case False
        with assms(2) Cons Some
        have run: "download_video_acquire env url filename fileType (unlinkSync fs ?O) = (r, fs', tr)"
          by (simp add: download_video_original_def)
        have "?count (unlinkSync fs ?O) \<le> ?count fs"
          by (rule completed_unlinkSync)
        with acquire_bound [OF assms(1) run] show ?thesis
          by simp
      next
        case True
        show ?thesis
        proof (cases "ffmpegAvailable env")
          case False
          with assms(2) Cons Some True show ?thesis
            by (simp add: download_video_original_def tool_runs_Nil)
        next
          case available: True
          obtain r0 fs0 tr0 where conv: "convert env fileType ?O ?P fs = (r0, fs0, tr0)"
            by (metis prod_cases3)
          from assms(2) Cons Some True available conv
          have "fs' = fs0" "tool_runs tr = tool_runs tr0"
            by (auto simp: download_video_original_def Let_def tool_runs_console split: sum.splits)
          with convert_bound [OF assms(1) conv] show ?thesis
            by simp
        qed
      qed
    qed
  qed
qed

text \<open>
  C8 as the specification states it: at most one valid artifact per title and kind
  exists at any time. A video request on an empty cache downloads \<open>My_Clip.webm\<close>
  and converts it to \<open>My_Clip.mp4\<close>; the source does not delete the original, and the
  directory then holds two completed files of the title.
\<close>

theorem original_kept_beside_canonical:
  "completed_files (js ''My_Clip'') TEMP_DIR_MP4 empty_cache = []
   \<and> map fst (completed_files (js ''My_Clip'') TEMP_DIR_MP4
        (fst (snd (download_video (example_env True ffmpeg_ok webm_download) example_url
           (js ''My_Clip'') (js ''mp4'') empty_cache))))
     = [js ''My_Clip.webm'', js ''My_Clip.mp4'']
   \<and> fst (download_video (example_env True ffmpeg_ok webm_download) example_url
           (js ''My_Clip'') (js ''mp4'') empty_cache)
     = Inr (TEMP_DIR_MP4, js ''My_Clip.mp4'')"
  by (simp add: completed_files_def string_defs fs_defs pipeline_defs example_defs)

text \<open>
  C8, amended. The steps that \<open>download_video\<close> itself takes on the cache directory
  (deleting an empty or partial file, renaming the downloaded file to \<open>P\<close>) never
  raise the number of completed files of the title; only a run of the downloader
  or of the transcoder can. When each such run adds at most one, the number after a
  call is at most the number before plus the number of tool runs of the call, of
  which there are at most two: the original can stay beside \<open>P\<close>.
\<close>

theorem completed_files_grow_with_tool_runs:
  assumes "tools_add_one env (remove_extension filename) (targetDir_of fileType)"
  shows "length (completed_files (remove_extension filename) (targetDir_of fileType)
                   (fst (snd (download_video env url filename fileType fs))))
           \<le> length (completed_files (remove_extension filename) (targetDir_of fileType) fs)
              + tool_runs (snd (snd (download_video env url filename fileType fs)))
       \<and> tool_runs (snd (snd (download_video env url filename fileType fs))) \<le> 2"
proof -
  let ?base = "remove_extension filename"
  let ?dir = "targetDir_of fileType"
  let ?P = "filePath_of filename fileType"
  let ?count = "\<lambda>s. length (completed_files ?base ?dir s)"
  obtain r fs' tr where run: "download_video env url filename fileType fs = (r, fs', tr)"
    by (metis prod_cases3)
  have "?count fs' \<le> ?count fs + tool_runs tr \<and> tool_runs tr \<le> 2"
  proof (cases "statSync fs ?P")
    case None
    with run have "download_video_original env url filename fileType fs = (r, fs', tr)"
      by (simp add: download_video_def)
    with assms show ?thesis
      by (rule original_bound)
  next
    case (Some stats)
    show ?thesis
    proof (cases "0 < st_size stats")
      case True
      with run Some show ?thesis
        by (auto simp: download_video_def tool_runs_Nil)
    next
      case False
      with run Some
      have rest: "download_video_original env url filename fileType (unlinkSync fs ?P) = (r, fs', tr)"
        by (simp add: download_video_def)
      have "?count (unlinkSync fs ?P) \<le> ?count fs"
        by (rule completed_unlinkSync)
      with original_bound [OF assms rest] show ?thesis
        by simp
    qed
  qed
  then show ?thesis
    by (simp add: run)
qed

theorem completed_files_grow_with_tool_runs_witness:
  "tools_add_one (example_env True ffmpeg_ok webm_download) (remove_extension (js ''My_Clip''))
     (targetDir_of (js ''mp4''))
   \<and> length (completed_files (remove_extension (js ''My_Clip'')) (targetDir_of (js ''mp4''))
        (fst (snd (download_video (example_env True ffmpeg_ok webm_download) example_url
           (js ''My_Clip'') (js ''mp4'') empty_cache))))
     \<le> length (completed_files (remove_extension (js ''My_Clip'')) (targetDir_of (js ''mp4'')) empty_cache)
        + tool_runs (snd (snd (download_video (example_env True ffmpeg_ok webm_download) example_url
           (js ''My_Clip'') (js ''mp4'') empty_cache)))
   \<and> length (completed_files (remove_extension (js ''My_Clip'')) (targetDir_of (js ''mp4''))
        (fst (snd (download_video (example_env True ffmpeg_ok webm_download) example_url
           (js ''My_Clip'') (js ''mp4'') empty_cache)))) = 2
   \<and> length (completed_files (remove_extension (js ''My_Clip'')) (targetDir_of (js ''mp4'')) empty_cache) = 0
   \<and> tool_runs (snd (snd (download_video (example_env True ffmpeg_ok webm_download) example_url
           (js ''My_Clip'') (js ''mp4'') empty_cache))) = 2"
proof -
  let ?env = "example_env True ffmpeg_ok webm_download"
  let ?T = "remove_extension (js ''My_Clip'')"
  let ?d = "targetDir_of (js ''mp4'')"
  have ffmpeg: "length (completed_files ?T ?d (snd (spawn_ffmpeg ?env args s)))
      \<le> Suc (length (completed_files ?T ?d s))" for args s
    by (simp add: example_env_def ffmpeg_ok_def completed_put_file
        split: list.splits arg.splits)
  have download: "length (completed_files ?T ?d (snd (ytdlp_downloadAsync ?env u f out s)))
      \<le> Suc (length (completed_files ?T ?d s))" for u f out s
    by (simp add: example_env_def webm_download_def completed_put_file)
  have tools: "tools_add_one ?env ?T ?d"
    unfolding tools_add_one_def using ffmpeg download by blast
  have after: "length (completed_files ?T ?d
        (fst (snd (download_video ?env example_url (js ''My_Clip'') (js ''mp4'') empty_cache)))) = 2"
    by (simp add: completed_files_def string_defs fs_defs pipeline_defs example_defs)
  have before: "length (completed_files ?T ?d empty_cache) = 0"
    by (simp add: completed_files_def string_defs fs_defs pipeline_defs example_defs)
  have runs: "tool_runs (snd (snd (download_video ?env example_url (js ''My_Clip'') (js ''mp4'')
        empty_cache))) = 2"
    by (simp add: tool_runs_def string_defs fs_defs pipeline_defs example_defs)
  from completed_files_grow_with_tool_runs [OF tools, of example_url empty_cache, THEN conjunct1]
    tools after before runs
  show ?thesis
    by (intro conjI)
qed

end
